theory Spec2Isabelle
  imports Main
begin

section \<open>Values of the host language\<close>

text \<open>
  The wrapper of \<^verbatim>\<open>src/src/debounce.ts\<close> is a closure over a handful of mutable
  variables, driven by the timer facility of the host. The embedding keeps those variables
  as the fields of a record, adds the part of the host the code talks to (the clock, the
  list of scheduled timers, the promises it created, the log of the calls of the wrapped
  operation) and turns every function of the closure into a function on that record.

  Values of the host language (arguments, the calling context, results, thrown errors) are
  one type variable \<open>'v\<close>. Durations and instants are whole milliseconds.
\<close>

datatype jsnum = Finite int | Infinity | NegInfinity | NaN

text \<open>The reason a promise is rejected with: the library's own error or a thrown value.\<close>

datatype 'v reason = DebounceCancelledError | Thrown 'v

datatype 'v settlement = Resolved 'v | Rejected "'v reason"

text \<open>
  What one evaluation of \<^verbatim>\<open>condition()\<close> gives: a boolean, a promise (settled later by
  the host, see the events \<open>CondResolves\<close> and \<open>CondRejects\<close>), or a thrown error.
\<close>

datatype 'v cond_result = CondReturns bool | CondPromise | CondThrows 'v

text \<open>
  What one call \<^verbatim>\<open>fn.apply(currentThis, currentArgs)\<close> gives: a plain value, a promise
  (settled later, events \<open>OpResolves\<close> and \<open>OpRejects\<close>), or a thrown error.
\<close>

datatype 'v fn_result = Returns 'v | ReturnsPromise | Throws 'v

datatype callback = TryRun | MaxWaitExpired

record timer =
  tid :: nat
  due :: int
  cb :: callback

section \<open>Construction\<close>

record 'v operation =
  behaviour :: "'v option \<Rightarrow> 'v list option \<Rightarrow> 'v fn_result"
  constructorName :: string

record 'v options =
  cancelOn :: "string option"
  maxWaitOpt :: "jsnum option"
  conditionOpt :: "(nat \<Rightarrow> 'v cond_result) option"

text \<open>
  The constants of the closure. \<open>condition\<close> is given the number of evaluations made so
  far, so that a condition may answer differently each time it is asked; \<open>fn\<close> gets the
  calling context and the argument array, each possibly \<^verbatim>\<open>null\<close>.
  \<open>isBrowser\<close> is the module constant of line 44.
\<close>

record 'v debouncer =
  fn :: "'v option \<Rightarrow> 'v list option \<Rightarrow> 'v fn_result"
  isDeclaredAsyncFunction :: bool
  delay :: int
  cancelKey :: "string option"
  maxWait :: "jsnum option"
  condition :: "(nat \<Rightarrow> 'v cond_result) option"
  isBrowser :: bool

text \<open>Lines 56-72. The operation is a function by its type; the delay is checked.\<close>

definition debounce ::
  "bool \<Rightarrow> 'v operation \<Rightarrow> jsnum \<Rightarrow> 'v options \<Rightarrow> string + 'v debouncer" where
  "debounce browser f d opts =
     (case d of
        Finite n \<Rightarrow>
          if n < 0 then Inl ''Expected 'delay' to be a non-negative finite number''
          else Inr \<lparr> fn = behaviour f,
                     isDeclaredAsyncFunction = (constructorName f = ''AsyncFunction''),
                     delay = n,
                     cancelKey = cancelOn opts,
                     maxWait = maxWaitOpt opts,
                     condition = conditionOpt opts,
                     isBrowser = browser \<rparr>
      | _ \<Rightarrow> Inl ''Expected 'delay' to be a non-negative finite number'')"

section \<open>The state of one wrapper\<close>

text \<open>
  \<open>delayTimer\<close> to \<open>removeKeyListener\<close> are the variables of lines 74-84.
  \<open>resolvePending\<close> and \<open>rejectPending\<close> are set and cleared together with
  \<open>pendingPromise\<close> everywhere in the source, so the one field stands for the three.
  \<open>removeKeyListener\<close> is true when the variable holds the remover, that is when the
  handler is registered with the window.

  The rest is the host: the clock \<open>now\<close>, the scheduled timers, the next timer handle
  (handles start at 1 and are truthy), the next promise, the settlements of the promises
  handed out so far, the number of evaluations of the condition, the attempts suspended on
  a promise of the condition, the calls of the operation whose promise is not settled yet,
  and the log of the calls of the operation.
\<close>

record 'v state =
  delayTimer :: "nat option"
  maxWaitTimer :: "nat option"
  lastArgs :: "'v list option"
  lastThis :: "'v option"
  hasPending :: bool
  pendingPromise :: "nat option"
  removeKeyListener :: bool
  now :: int
  timers :: "timer list"
  nextTimer :: nat
  nextPromise :: nat
  settled :: "(nat \<times> 'v settlement) list"
  condEvals :: nat
  condWaiting :: "nat list"
  opsInFlight :: "nat list"
  invocations :: "('v option \<times> 'v list option) list"

definition init :: "'v state" where
  "init = \<lparr> delayTimer = None, maxWaitTimer = None, lastArgs = None, lastThis = None,
            hasPending = False, pendingPromise = None, removeKeyListener = False,
            now = 0, timers = [], nextTimer = 1, nextPromise = 0, settled = [],
            condEvals = 0, condWaiting = [], opsInFlight = [], invocations = [] \<rparr>"

section \<open>The timer facility\<close>

definition setTimeout :: "callback \<Rightarrow> int \<Rightarrow> 'v state \<Rightarrow> nat \<times> 'v state" where
  "setTimeout c d s =
     (nextTimer s,
      s\<lparr> timers := timers s @ [\<lparr> tid = nextTimer s, due = now s + d, cb = c \<rparr>],
         nextTimer := Suc (nextTimer s) \<rparr>)"

definition clearTimeout :: "nat \<Rightarrow> 'v state \<Rightarrow> 'v state" where
  "clearTimeout i s = s\<lparr> timers := filter (\<lambda>t. tid t \<noteq> i) (timers s) \<rparr>"

section \<open>The functions of the closure\<close>

text \<open>Lines 86-94.\<close>

definition cleanupKeyListener :: "'v state \<Rightarrow> 'v state" where
  "cleanupKeyListener s = (if removeKeyListener s then s\<lparr> removeKeyListener := False \<rparr> else s)"

text \<open>Lines 96-105. An empty key name is falsy, as \<^verbatim>\<open>null\<close> is.\<close>

definition attachKeyListener :: "'v debouncer \<Rightarrow> 'v state \<Rightarrow> 'v state" where
  "attachKeyListener c s =
     (if isBrowser c
      then (case cancelKey c of
              None \<Rightarrow> s
            | Some k \<Rightarrow> if k = [] then s
                       else if removeKeyListener s then s
                       else s\<lparr> removeKeyListener := True \<rparr>)
      else s)"

text \<open>Lines 107-116.\<close>

definition clearDelayTimer :: "'v state \<Rightarrow> 'v state" where
  "clearDelayTimer s =
     (case delayTimer s of None \<Rightarrow> s | Some i \<Rightarrow> (clearTimeout i s)\<lparr> delayTimer := None \<rparr>)"

definition clearMaxWaitTimer :: "'v state \<Rightarrow> 'v state" where
  "clearMaxWaitTimer s =
     (case maxWaitTimer s of None \<Rightarrow> s | Some i \<Rightarrow> (clearTimeout i s)\<lparr> maxWaitTimer := None \<rparr>)"

definition clearTimers :: "'v state \<Rightarrow> 'v state" where
  "clearTimers s = clearMaxWaitTimer (clearDelayTimer s)"

text \<open>Lines 118-126.\<close>

definition ensurePendingPromise :: "'v state \<Rightarrow> nat \<times> 'v state" where
  "ensurePendingPromise s =
     (case pendingPromise s of
        Some p \<Rightarrow> (p, s)
      | None \<Rightarrow> (nextPromise s,
                 s\<lparr> pendingPromise := Some (nextPromise s), nextPromise := Suc (nextPromise s) \<rparr>))"

text \<open>
  The four lines that every settlement path repeats: take the settling function, clear
  the three variables, call the function if there is one.
\<close>

definition settlePending :: "'v settlement \<Rightarrow> 'v state \<Rightarrow> 'v state" where
  "settlePending r s =
     (case pendingPromise s of
        None \<Rightarrow> s
      | Some p \<Rightarrow> s\<lparr> pendingPromise := None, settled := settled s @ [(p, r)] \<rparr>)"

text \<open>Lines 139-182: the run itself, once the condition has let it through.\<close>

definition runNow :: "'v debouncer \<Rightarrow> 'v state \<Rightarrow> 'v state" where
  "runNow c s =
     (let currentArgs = lastArgs s;
          currentThis = lastThis s;
          s1 = (cleanupKeyListener (clearTimers s))
                 \<lparr> hasPending := False, lastArgs := None, lastThis := None \<rparr>;
          k = length (invocations s1);
          s2 = s1\<lparr> invocations := invocations s1 @ [(currentThis, currentArgs)] \<rparr>
      in case fn c currentThis currentArgs of
           Throws err \<Rightarrow> settlePending (Rejected (Thrown err)) s2
         | ReturnsPromise \<Rightarrow> s2\<lparr> opsInFlight := opsInFlight s2 @ [k] \<rparr>
         | Returns v \<Rightarrow> settlePending (Resolved v) s2)"

text \<open>Lines 133-137, with the value of the condition in hand.\<close>

definition afterCondition :: "'v debouncer \<Rightarrow> bool \<Rightarrow> 'v state \<Rightarrow> 'v state" where
  "afterCondition c ok s =
     (if \<not> ok
      then (let (i, s1) = setTimeout TryRun (max 10 (delay c)) s in s1\<lparr> delayTimer := Some i \<rparr>)
      else runNow c s)"

text \<open>Lines 183-189: the handler of the outer \<^verbatim>\<open>try\<close>.\<close>

definition tryRunCatch :: "'v \<Rightarrow> 'v state \<Rightarrow> 'v state" where
  "tryRunCatch err s = settlePending (Rejected (Thrown err)) s"

text \<open>
  Lines 128-137. An attempt whose condition returns a promise stops at the \<^verbatim>\<open>await\<close>;
  it is recorded in \<open>condWaiting\<close> under the number of the evaluation.
\<close>

definition tryRun :: "'v debouncer \<Rightarrow> 'v state \<Rightarrow> 'v state" where
  "tryRun c s =
     (case condition c of
        None \<Rightarrow> runNow c s
      | Some f \<Rightarrow>
          (let s1 = s\<lparr> condEvals := Suc (condEvals s) \<rparr>
           in case f (condEvals s) of
                CondThrows err \<Rightarrow> tryRunCatch err s1
              | CondReturns ok \<Rightarrow> afterCondition c ok s1
              | CondPromise \<Rightarrow> s1\<lparr> condWaiting := condWaiting s1 @ [condEvals s] \<rparr>))"

text \<open>Lines 196-204: the callback of the max-wait timer.\<close>

definition maxWaitExpired :: "'v state \<Rightarrow> 'v state" where
  "maxWaitExpired s =
     (if hasPending s
      then (let (i, s1) = setTimeout TryRun 0 (clearDelayTimer s) in s1\<lparr> delayTimer := Some i \<rparr>)
      else s)"

text \<open>Lines 192-214.\<close>

definition maxWaitEnabled :: "'v debouncer \<Rightarrow> int option" where
  "maxWaitEnabled c =
     (case maxWait c of
        Some (Finite w) \<Rightarrow> if w > 0 then Some w else None
      | _ \<Rightarrow> None)"

definition schedule :: "'v debouncer \<Rightarrow> 'v state \<Rightarrow> 'v state" where
  "schedule c s =
     (let s1 = (if \<not> hasPending s
                then (let s0 = s\<lparr> hasPending := True \<rparr>
                      in case maxWaitEnabled c of
                           Some w \<Rightarrow> (let (i, s') = setTimeout MaxWaitExpired w s0
                                      in s'\<lparr> maxWaitTimer := Some i \<rparr>)
                         | None \<Rightarrow> s0)
                else s);
          (j, s2) = setTimeout TryRun (delay c) (clearDelayTimer s1)
      in attachKeyListener c (s2\<lparr> delayTimer := Some j \<rparr>))"

text \<open>Lines 216-228.\<close>

definition cancel :: "'v state \<Rightarrow> 'v state" where
  "cancel s =
     (if \<not> hasPending s then s
      else settlePending (Rejected DebounceCancelledError)
             ((cleanupKeyListener (clearTimers s))
                \<lparr> hasPending := False, lastArgs := None, lastThis := None \<rparr>))"

text \<open>
  Lines 230-262. What \<^verbatim>\<open>flush()\<close> gives its caller: \<^verbatim>\<open>undefined\<close>, the value the
  operation returned, the promise the operation returned (named by the number of the call
  in the log), an error thrown to the caller, or the shared promise of the wrapper.
\<close>

datatype 'v flush_result =
  FlushUndefined | FlushValue 'v | FlushRawPromise nat | FlushThrows 'v | FlushShared nat

definition flushSync :: "'v debouncer \<Rightarrow> 'v state \<Rightarrow> 'v flush_result \<times> 'v state" where
  "flushSync c s =
     (let s1 = (cleanupKeyListener (clearTimers s))\<lparr> hasPending := False \<rparr>;
          currentArgs = lastArgs s1;
          currentThis = lastThis s1;
          s2 = s1\<lparr> lastArgs := None, lastThis := None \<rparr>;
          k = length (invocations s2);
          s3 = s2\<lparr> invocations := invocations s2 @ [(currentThis, currentArgs)] \<rparr>
      in case fn c currentThis currentArgs of
           Returns v \<Rightarrow> (FlushValue v, s3)
         | ReturnsPromise \<Rightarrow> (FlushRawPromise k, s3)
         | Throws err \<Rightarrow> (FlushThrows err, s3))"

definition flushDeferred :: "'v debouncer \<Rightarrow> 'v state \<Rightarrow> 'v flush_result \<times> 'v state" where
  "flushDeferred c s =
     (let s1 = clearMaxWaitTimer (clearDelayTimer s)
      in if isDeclaredAsyncFunction c
         then (let (p, s2) = ensurePendingPromise s1
               in (FlushShared p, snd (setTimeout TryRun 0 s2)))
         else (FlushUndefined, snd (setTimeout TryRun 0 s1)))"

definition flush :: "'v debouncer \<Rightarrow> 'v state \<Rightarrow> 'v flush_result \<times> 'v state" where
  "flush c s =
     (if \<not> hasPending s then (FlushUndefined, s)
      else if lastArgs s = None then (FlushUndefined, s)
      else if isDeclaredAsyncFunction c then flushDeferred c s
      else case condition c of
             None \<Rightarrow> flushSync c s
           | Some f \<Rightarrow>
               (let s1 = s\<lparr> condEvals := Suc (condEvals s) \<rparr>
                in case f (condEvals s) of
                     CondReturns True \<Rightarrow> flushSync c s1
                   | CondReturns False \<Rightarrow> flushDeferred c s1
                   | CondPromise \<Rightarrow> flushDeferred c s1
                   | CondThrows err \<Rightarrow> (FlushThrows err, s1)))"

text \<open>Lines 264-273: the wrapper itself. It gives the shared promise or \<^verbatim>\<open>undefined\<close>.\<close>

definition debounced ::
  "'v debouncer \<Rightarrow> 'v option \<Rightarrow> 'v list \<Rightarrow> 'v state \<Rightarrow> nat option \<times> 'v state" where
  "debounced c this args s =
     (let s1 = schedule c (s\<lparr> lastArgs := Some args, lastThis := this \<rparr>)
      in if isDeclaredAsyncFunction c
         then (let (p, s2) = ensurePendingPromise s1 in (Some p, s2))
         else (None, s1))"

text \<open>Line 277.\<close>

definition pending :: "'v state \<Rightarrow> bool" where
  "pending s = hasPending s"

text \<open>Lines 98-102: the handler of the key listener, when it is registered.\<close>

definition keydown :: "'v debouncer \<Rightarrow> string \<Rightarrow> 'v state \<Rightarrow> 'v state" where
  "keydown c k s =
     (if removeKeyListener s \<and> cancelKey c = Some k then cancel s else s)"

text \<open>Lines 161-175: the two callbacks on the promise of the operation.\<close>

definition opResolved :: "'v \<Rightarrow> 'v state \<Rightarrow> 'v state" where
  "opResolved v s = settlePending (Resolved v) s"

definition opRejected :: "'v \<Rightarrow> 'v state \<Rightarrow> 'v state" where
  "opRejected err s = settlePending (Rejected (Thrown err)) s"

section \<open>The host: events and runs\<close>

text \<open>
  One event is one turn of the host's loop. \<open>Advance d\<close> lets \<open>d\<close> milliseconds pass
  on a host that fires every timer at its instant: it is refused when a timer would become
  overdue. \<open>Stall d\<close> lets the time pass on a busy host, timers becoming overdue.
  \<open>Fire i\<close> runs the callback of the scheduled timer \<open>i\<close>, once its instant is reached.
  \<open>Idle\<close> is a turn in which the host finds no timer to fire: it is possible only when
  every scheduled timer is due later than now.
  The other events are the calls of the public functions, a key event, and the settlement
  of a promise of the condition or of the operation.
  The operation and the condition are taken not to call back into the wrapper.
\<close>

datatype 'v event =
    Call "'v option" "'v list"
  | Cancel
  | Flush
  | Advance int
  | Stall int
  | Idle
  | Fire nat
  | KeyDown string
  | CondResolves nat bool
  | CondRejects nat 'v
  | OpResolves nat 'v
  | OpRejects nat 'v

definition fire :: "'v debouncer \<Rightarrow> nat \<Rightarrow> 'v state \<Rightarrow> 'v state option" where
  "fire c i s =
     (case filter (\<lambda>t. tid t = i) (timers s) of
        [] \<Rightarrow> None
      | t # _ \<Rightarrow>
          if due t \<le> now s
          then (let s1 = clearTimeout i s
                in Some (case cb t of TryRun \<Rightarrow> tryRun c s1 | MaxWaitExpired \<Rightarrow> maxWaitExpired s1))
          else None)"

fun step :: "'v debouncer \<Rightarrow> 'v event \<Rightarrow> 'v state \<Rightarrow> 'v state option" where
  "step c (Call this args) s = Some (snd (debounced c this args s))"
| "step c Cancel s = Some (cancel s)"
| "step c Flush s = Some (snd (flush c s))"
| "step c (Advance d) s =
     (if 0 \<le> d \<and> list_all (\<lambda>t. now s + d \<le> due t) (timers s)
      then Some (s\<lparr> now := now s + d \<rparr>) else None)"
| "step c (Stall d) s = (if 0 \<le> d then Some (s\<lparr> now := now s + d \<rparr>) else None)"
| "step c Idle s = (if list_all (\<lambda>t. now s < due t) (timers s) then Some s else None)"
| "step c (Fire i) s = fire c i s"
| "step c (KeyDown k) s = Some (keydown c k s)"
| "step c (CondResolves k ok) s =
     (if k \<in> set (condWaiting s)
      then Some (afterCondition c ok (s\<lparr> condWaiting := removeAll k (condWaiting s) \<rparr>))
      else None)"
| "step c (CondRejects k err) s =
     (if k \<in> set (condWaiting s)
      then Some (tryRunCatch err (s\<lparr> condWaiting := removeAll k (condWaiting s) \<rparr>))
      else None)"
| "step c (OpResolves k v) s =
     (if k \<in> set (opsInFlight s)
      then Some (opResolved v (s\<lparr> opsInFlight := removeAll k (opsInFlight s) \<rparr>))
      else None)"
| "step c (OpRejects k err) s =
     (if k \<in> set (opsInFlight s)
      then Some (opRejected err (s\<lparr> opsInFlight := removeAll k (opsInFlight s) \<rparr>))
      else None)"

fun run :: "'v debouncer \<Rightarrow> 'v event list \<Rightarrow> 'v state \<Rightarrow> 'v state option" where
  "run c [] s = Some s"
| "run c (e # es) s = (case step c e s of None \<Rightarrow> None | Some s' \<Rightarrow> run c es s')"

inductive reachable :: "'v debouncer \<Rightarrow> 'v state \<Rightarrow> bool" for c :: "'v debouncer" where
  reachable_init: "reachable c init"
| reachable_step: "reachable c s \<Longrightarrow> step c e s = Some s' \<Longrightarrow> reachable c s'"

section \<open>Predicates on states\<close>

text \<open>The key listener can be registered at all: lines 97 and 44.\<close>

definition listenerEnabled :: "'v debouncer \<Rightarrow> bool" where
  "listenerEnabled c = (isBrowser c \<and> cancelKey c \<noteq> None \<and> cancelKey c \<noteq> Some [])"

text \<open>The listener is registered exactly while a call is pending, where it can be.\<close>

definition listenerInv :: "'v debouncer \<Rightarrow> 'v state \<Rightarrow> bool" where
  "listenerInv c s = (removeKeyListener s = (hasPending s \<and> listenerEnabled c))"

text \<open>A call is pending exactly while the invocation record is held.\<close>

definition argsInv :: "'v state \<Rightarrow> bool" where
  "argsInv s = (hasPending s = (lastArgs s \<noteq> None))"

text \<open>No shared promise was ever made.\<close>

definition syncInv :: "'v state \<Rightarrow> bool" where
  "syncInv s = (pendingPromise s = None \<and> settled s = [] \<and> nextPromise s = 0)"

text \<open>
  The three together; the last for a wrapper whose operation is not declared \<^verbatim>\<open>async\<close>.
\<close>

definition basicInv :: "'v debouncer \<Rightarrow> 'v state \<Rightarrow> bool" where
  "basicInv c s = (listenerInv c s \<and> argsInv s \<and> (isDeclaredAsyncFunction c \<or> syncInv s))"

text \<open>
  Every scheduled timer is held in one of the two timer variables, nothing is scheduled
  when no call is pending, and no attempt is suspended.
\<close>

definition trackedInv :: "'v state \<Rightarrow> bool" where
  "trackedInv s =
     (condWaiting s = [] \<and> (hasPending s \<or> timers s = []) \<and>
      list_all (\<lambda>t. delayTimer s = Some (tid t) \<or> maxWaitTimer s = Some (tid t)) (timers s))"

text \<open>Nothing pending, nothing scheduled, no attempt suspended: the wrapper is at rest.\<close>

definition quiescent :: "'v state \<Rightarrow> bool" where
  "quiescent s =
     (\<not> hasPending s \<and> timers s = [] \<and> condWaiting s = [] \<and>
      delayTimer s = None \<and> maxWaitTimer s = None)"

text \<open>The condition, if there is one, answers true at its next evaluation.\<close>

definition conditionPasses :: "'v debouncer \<Rightarrow> 'v state \<Rightarrow> bool" where
  "conditionPasses c s =
     (case condition c of None \<Rightarrow> True | Some f \<Rightarrow> f (condEvals s) = CondReturns True)"

text \<open>
  The events of a burst after its first call: each further call comes \<open>g\<close> milliseconds
  after the one before it, on a host that fires its timers on time and has none to fire
  when the call arrives.
\<close>

fun burstEvents :: "(int \<times> 'v option \<times> 'v list) list \<Rightarrow> 'v event list" where
  "burstEvents [] = []"
| "burstEvents ((g, this, args) # cs) = Advance g # Idle # Call this args # burstEvents cs"

fun isCall :: "'v event \<Rightarrow> bool" where
  "isCall (Call this args) = True"
| "isCall e = False"

text \<open>
  The state in the middle of a burst that began at instant \<open>t0\<close> in the state \<open>s0\<close> and
  whose latest call came with \<open>this\<close> and \<open>args\<close>: that call is the one on record, the
  operation has not run, and what is scheduled is the delay timer, counted from now, and
  the max-wait timer of the burst's first call if max-wait is configured.
\<close>

definition inBurst ::
  "'v debouncer \<Rightarrow> 'v state \<Rightarrow> int \<Rightarrow> 'v option \<Rightarrow> 'v list \<Rightarrow> 'v state \<Rightarrow> bool" where
  "inBurst c s0 t0 this args s =
     (hasPending s \<and> lastArgs s = Some args \<and> lastThis s = this \<and>
      invocations s = invocations s0 \<and> condEvals s = condEvals s0 \<and> condWaiting s = [] \<and>
      (\<exists>d. delayTimer s = Some d \<and> d < nextTimer s \<and>
         (case maxWaitEnabled c of
            None \<Rightarrow> maxWaitTimer s = None \<and>
                    timers s = [\<lparr> tid = d, due = now s + delay c, cb = TryRun \<rparr>]
          | Some w \<Rightarrow>
              (\<exists>m. maxWaitTimer s = Some m \<and> m \<noteq> d \<and> m < nextTimer s \<and>
                 timers s = [\<lparr> tid = m, due = t0 + w, cb = MaxWaitExpired \<rparr>,
                             \<lparr> tid = d, due = now s + delay c, cb = TryRun \<rparr>]))))"

text \<open>What a settling path adds to the log of settlements: lines 152-156 and the like.\<close>

definition settledBy :: "nat option \<Rightarrow> 'v settlement \<Rightarrow> (nat \<times> 'v settlement) list" where
  "settledBy p r = (case p of None \<Rightarrow> [] | Some q \<Rightarrow> [(q, r)])"

section \<open>Sample wrappers\<close>

text \<open>
  \<open>sample async d mw cond browser\<close>: a wrapper with delay \<open>d\<close>, max-wait \<open>mw\<close> and
  condition \<open>cond\<close>, cancelled by the key Escape, on a host that is a browser or not.
  Its operation is declared \<^verbatim>\<open>async\<close> and returns a promise, or is a plain function
  that returns the text \<open>ok\<close>.
\<close>

definition sample ::
  "bool \<Rightarrow> int \<Rightarrow> jsnum option \<Rightarrow> (nat \<Rightarrow> string cond_result) option \<Rightarrow> bool \<Rightarrow> string debouncer"
  where
  "sample async d mw cond browser =
     \<lparr> fn = (\<lambda>this args. if async then ReturnsPromise else Returns ''ok''),
       isDeclaredAsyncFunction = async, delay = d, cancelKey = Some ''Escape'',
       maxWait = mw, condition = cond, isBrowser = browser \<rparr>"

definition neverReady :: "nat \<Rightarrow> string cond_result" where
  "neverReady n = CondReturns False"

definition brokenCheck :: "nat \<Rightarrow> string cond_result" where
  "brokenCheck n = CondThrows ''offline''"

definition slowCheck :: "nat \<Rightarrow> string cond_result" where
  "slowCheck n = CondPromise"

definition readyLater :: "nat \<Rightarrow> string cond_result" where
  "readyLater n = CondReturns (0 < n)"

definition throwsOnce :: "nat \<Rightarrow> string cond_result" where
  "throwsOnce n = (if n = 0 then CondThrows ''offline'' else CondReturns True)"

text \<open>
  A plain function that returns a promise, wrapped with a delay of 100 ms and no options
  on a browser, and the wrapper that construction gives for it.
\<close>

definition promiseReturning :: "string operation" where
  "promiseReturning =
     \<lparr> behaviour = (\<lambda>this args. ReturnsPromise), constructorName = ''Function'' \<rparr>"

definition noOptions :: "string options" where
  "noOptions = \<lparr> cancelOn = None, maxWaitOpt = None, conditionOpt = None \<rparr>"

definition plainWrapper :: "string debouncer" where
  "plainWrapper =
     \<lparr> fn = (\<lambda>this args. ReturnsPromise), isDeclaredAsyncFunction = False, delay = 100,
       cancelKey = None, maxWait = None, condition = None, isBrowser = True \<rparr>"

text \<open>
  An operation declared \<^verbatim>\<open>async\<close> and the wrapper that construction gives for it, with
  the same delay and options.
\<close>

definition declaredAsync :: "string operation" where
  "declaredAsync =
     \<lparr> behaviour = (\<lambda>this args. ReturnsPromise), constructorName = ''AsyncFunction'' \<rparr>"

definition asyncWrapper :: "string debouncer" where
  "asyncWrapper =
     \<lparr> fn = (\<lambda>this args. ReturnsPromise), isDeclaredAsyncFunction = True, delay = 100,
       cancelKey = None, maxWait = None, condition = None, isBrowser = True \<rparr>"

section \<open>The closure's functions as record updates\<close>

lemma clearDelayTimer_upd:
  "clearDelayTimer s =
     s\<lparr> delayTimer := None, timers := filter (\<lambda>t. Some (tid t) \<noteq> delayTimer s) (timers s) \<rparr>"
  by (cases s) (simp add: clearDelayTimer_def clearTimeout_def split: option.splits)

lemma clearMaxWaitTimer_upd:
  "clearMaxWaitTimer s =
     s\<lparr> maxWaitTimer := None,
        timers := filter (\<lambda>t. Some (tid t) \<noteq> maxWaitTimer s) (timers s) \<rparr>"
  by (cases s) (simp add: clearMaxWaitTimer_def clearTimeout_def split: option.splits)

lemma clearTimers_upd:
  "clearTimers s =
     s\<lparr> delayTimer := None, maxWaitTimer := None,
        timers := filter (\<lambda>t. Some (tid t) \<noteq> maxWaitTimer s)
                    (filter (\<lambda>t. Some (tid t) \<noteq> delayTimer s) (timers s)) \<rparr>"
  by (simp add: clearTimers_def clearDelayTimer_upd clearMaxWaitTimer_upd)

lemma cleanupKeyListener_upd: "cleanupKeyListener s = s\<lparr> removeKeyListener := False \<rparr>"
  by (cases s) (simp add: cleanupKeyListener_def)

lemma attachKeyListener_upd:
  "attachKeyListener c s =
     s\<lparr> removeKeyListener := (removeKeyListener s \<or> listenerEnabled c) \<rparr>"
  by (cases s) (auto simp: attachKeyListener_def listenerEnabled_def split: option.splits)

lemma settlePending_upd:
  "settlePending r s =
     s\<lparr> pendingPromise := None,
        settled := settled s @ settledBy (pendingPromise s) r \<rparr>"
  by (cases s) (simp add: settlePending_def settledBy_def split: option.splits)

lemma ensurePendingPromise_upd:
  "ensurePendingPromise s =
     (case pendingPromise s of Some p \<Rightarrow> p | None \<Rightarrow> nextPromise s,
      s\<lparr> pendingPromise :=
            Some (case pendingPromise s of Some p \<Rightarrow> p | None \<Rightarrow> nextPromise s),
         nextPromise :=
            (case pendingPromise s of Some p \<Rightarrow> nextPromise s
                                    | None \<Rightarrow> Suc (nextPromise s)) \<rparr>)"
  by (cases s) (simp add: ensurePendingPromise_def split: option.splits)

lemmas upd_forms =
  clearDelayTimer_upd clearMaxWaitTimer_upd clearTimers_upd cleanupKeyListener_upd
  attachKeyListener_upd settlePending_upd ensurePendingPromise_upd setTimeout_def
  clearTimeout_def

lemma runNow_upd:
  "runNow c s =
     s\<lparr> delayTimer := None, maxWaitTimer := None,
        timers := filter (\<lambda>t. Some (tid t) \<noteq> maxWaitTimer s)
                    (filter (\<lambda>t. Some (tid t) \<noteq> delayTimer s) (timers s)),
        removeKeyListener := False, hasPending := False, lastArgs := None, lastThis := None,
        invocations := invocations s @ [(lastThis s, lastArgs s)],
        pendingPromise :=
          (case fn c (lastThis s) (lastArgs s) of
             ReturnsPromise \<Rightarrow> pendingPromise s | Returns v \<Rightarrow> None | Throws err \<Rightarrow> None),
        settled := settled s @
          (case fn c (lastThis s) (lastArgs s) of
             ReturnsPromise \<Rightarrow> []
           | Returns v \<Rightarrow> settledBy (pendingPromise s) (Resolved v)
           | Throws err \<Rightarrow> settledBy (pendingPromise s) (Rejected (Thrown err))),
        opsInFlight := opsInFlight s @
          (case fn c (lastThis s) (lastArgs s) of
             ReturnsPromise \<Rightarrow> [length (invocations s)] | Returns v \<Rightarrow> [] | Throws err \<Rightarrow> []) \<rparr>"
  by (cases s) (simp add: runNow_def upd_forms Let_def split: fn_result.splits)

lemma cancel_upd:
  "cancel s =
     (if hasPending s
      then s\<lparr> delayTimer := None, maxWaitTimer := None,
              timers := filter (\<lambda>t. Some (tid t) \<noteq> maxWaitTimer s)
                          (filter (\<lambda>t. Some (tid t) \<noteq> delayTimer s) (timers s)),
              removeKeyListener := False, hasPending := False, lastArgs := None,
              lastThis := None, pendingPromise := None,
              settled := settled s @ settledBy (pendingPromise s) (Rejected DebounceCancelledError) \<rparr>
      else s)"
  by (cases s) (simp add: cancel_def upd_forms)

lemma retry_upd:
  "afterCondition c False s =
     s\<lparr> timers := timers s @ [\<lparr> tid = nextTimer s, due = now s + max 10 (delay c), cb = TryRun \<rparr>],
        nextTimer := Suc (nextTimer s), delayTimer := Some (nextTimer s) \<rparr>"
  by (cases s) (simp add: afterCondition_def setTimeout_def)

lemma afterCondition_True: "afterCondition c True s = runNow c s"
  by (simp add: afterCondition_def)

lemma maxWaitExpired_upd:
  "maxWaitExpired s =
     (if hasPending s
      then s\<lparr> timers := filter (\<lambda>t. Some (tid t) \<noteq> delayTimer s) (timers s)
                          @ [\<lparr> tid = nextTimer s, due = now s, cb = TryRun \<rparr>],
              nextTimer := Suc (nextTimer s), delayTimer := Some (nextTimer s) \<rparr>
      else s)"
  by (cases s) (simp add: maxWaitExpired_def upd_forms)

lemma schedule_upd:
  "schedule c s =
     s\<lparr> hasPending := True,
        maxWaitTimer :=
          (if hasPending s then maxWaitTimer s
           else case maxWaitEnabled c of None \<Rightarrow> maxWaitTimer s | Some w \<Rightarrow> Some (nextTimer s)),
        timers :=
          (if hasPending s then filter (\<lambda>t. Some (tid t) \<noteq> delayTimer s) (timers s)
           else case maxWaitEnabled c of
                  None \<Rightarrow> filter (\<lambda>t. Some (tid t) \<noteq> delayTimer s) (timers s)
                | Some w \<Rightarrow> filter (\<lambda>t. Some (tid t) \<noteq> delayTimer s)
                             (timers s @ [\<lparr> tid = nextTimer s, due = now s + w, cb = MaxWaitExpired \<rparr>]))
          @ [\<lparr> tid = (if hasPending s then nextTimer s
                      else case maxWaitEnabled c of None \<Rightarrow> nextTimer s
                                                  | Some w \<Rightarrow> Suc (nextTimer s)),
               due = now s + delay c, cb = TryRun \<rparr>],
        nextTimer :=
          (if hasPending s then Suc (nextTimer s)
           else case maxWaitEnabled c of None \<Rightarrow> Suc (nextTimer s)
                                       | Some w \<Rightarrow> Suc (Suc (nextTimer s))),
        delayTimer :=
          Some (if hasPending s then nextTimer s
                else case maxWaitEnabled c of None \<Rightarrow> nextTimer s
                                            | Some w \<Rightarrow> Suc (nextTimer s)),
        removeKeyListener := (removeKeyListener s \<or> listenerEnabled c) \<rparr>"
  by (cases s) (simp add: schedule_def upd_forms Let_def split: option.splits)

lemma flushSync_upd:
  "flushSync c s =
     (case fn c (lastThis s) (lastArgs s) of
        Returns v \<Rightarrow> FlushValue v
      | ReturnsPromise \<Rightarrow> FlushRawPromise (length (invocations s))
      | Throws err \<Rightarrow> FlushThrows err,
      s\<lparr> delayTimer := None, maxWaitTimer := None,
         timers := filter (\<lambda>t. Some (tid t) \<noteq> maxWaitTimer s)
                     (filter (\<lambda>t. Some (tid t) \<noteq> delayTimer s) (timers s)),
         removeKeyListener := False, hasPending := False, lastArgs := None, lastThis := None,
         invocations := invocations s @ [(lastThis s, lastArgs s)] \<rparr>)"
  by (cases s) (simp add: flushSync_def upd_forms Let_def split: fn_result.splits)

lemma flushDeferred_upd:
  "flushDeferred c s =
     (if isDeclaredAsyncFunction c
      then FlushShared (case pendingPromise s of Some p \<Rightarrow> p | None \<Rightarrow> nextPromise s)
      else FlushUndefined,
      s\<lparr> delayTimer := None, maxWaitTimer := None,
         timers := filter (\<lambda>t. Some (tid t) \<noteq> maxWaitTimer s)
                     (filter (\<lambda>t. Some (tid t) \<noteq> delayTimer s) (timers s))
                   @ [\<lparr> tid = nextTimer s, due = now s, cb = TryRun \<rparr>],
         nextTimer := Suc (nextTimer s),
         pendingPromise :=
           (if isDeclaredAsyncFunction c
            then Some (case pendingPromise s of Some p \<Rightarrow> p | None \<Rightarrow> nextPromise s)
            else pendingPromise s),
         nextPromise :=
           (if isDeclaredAsyncFunction c
            then (case pendingPromise s of Some p \<Rightarrow> nextPromise s
                                         | None \<Rightarrow> Suc (nextPromise s))
            else nextPromise s) \<rparr>)"
  by (cases s) (simp add: flushDeferred_def upd_forms Let_def split: option.splits)

lemma debounced_upd:
  "debounced c this args s =
     (let s1 = schedule c (s\<lparr> lastArgs := Some args, lastThis := this \<rparr>)
      in (if isDeclaredAsyncFunction c
          then Some (case pendingPromise s of Some p \<Rightarrow> p | None \<Rightarrow> nextPromise s)
          else None,
          s1\<lparr> pendingPromise :=
                 (if isDeclaredAsyncFunction c
                  then Some (case pendingPromise s of Some p \<Rightarrow> p | None \<Rightarrow> nextPromise s)
                  else pendingPromise s),
               nextPromise :=
                 (if isDeclaredAsyncFunction c
                  then (case pendingPromise s of Some p \<Rightarrow> nextPromise s
                                               | None \<Rightarrow> Suc (nextPromise s))
                  else nextPromise s) \<rparr>))"
  by (cases s) (simp add: debounced_def schedule_upd upd_forms Let_def split: option.splits)

section \<open>Invariants of the reachable states\<close>

lemmas basicInv_defs = basicInv_def listenerInv_def argsInv_def syncInv_def settledBy_def

lemma basicInv_host [simp]:
  "basicInv c (s\<lparr> now := t \<rparr>) = basicInv c s"
  "basicInv c (s\<lparr> condWaiting := ws \<rparr>) = basicInv c s"
  "basicInv c (s\<lparr> opsInFlight := os \<rparr>) = basicInv c s"
  "basicInv c (s\<lparr> condEvals := n \<rparr>) = basicInv c s"
  "basicInv c (clearTimeout i s) = basicInv c s"
  by (simp_all add: basicInv_defs clearTimeout_def)

lemma basicInv_settlePending:
  "basicInv c s \<Longrightarrow> basicInv c (settlePending r s)"
  by (auto simp: basicInv_defs settlePending_upd split: option.splits)

lemma basicInv_runNow: "basicInv c s \<Longrightarrow> basicInv c (runNow c s)"
  by (auto simp: basicInv_defs runNow_upd split: fn_result.splits option.splits)

lemma basicInv_afterCondition: "basicInv c s \<Longrightarrow> basicInv c (afterCondition c ok s)"
  by (cases ok) (simp_all add: basicInv_runNow afterCondition_True, simp add: basicInv_defs retry_upd)

lemma basicInv_tryRun: "basicInv c s \<Longrightarrow> basicInv c (tryRun c s)"
  by (simp add: tryRun_def tryRunCatch_def Let_def basicInv_runNow basicInv_afterCondition
        basicInv_settlePending split: option.splits cond_result.splits)

lemma basicInv_maxWaitExpired: "basicInv c s \<Longrightarrow> basicInv c (maxWaitExpired s)"
  by (simp add: basicInv_defs maxWaitExpired_upd)

lemma basicInv_fire: "basicInv c s \<Longrightarrow> fire c i s = Some s' \<Longrightarrow> basicInv c s'"
  by (auto simp: fire_def Let_def basicInv_tryRun basicInv_maxWaitExpired
           split: list.splits if_splits callback.splits)

lemma basicInv_cancel: "basicInv c s \<Longrightarrow> basicInv c (cancel s)"
  by (auto simp: basicInv_defs cancel_upd split: option.splits)

lemma basicInv_keydown: "basicInv c s \<Longrightarrow> basicInv c (keydown c k s)"
  by (simp add: keydown_def basicInv_cancel)

lemma basicInv_debounced: "basicInv c s \<Longrightarrow> basicInv c (snd (debounced c this args s))"
  by (auto simp: basicInv_defs debounced_upd schedule_upd Let_def)

lemma basicInv_flushSync: "basicInv c s \<Longrightarrow> basicInv c (snd (flushSync c s))"
  by (auto simp: basicInv_defs flushSync_upd)

lemma basicInv_flushDeferred: "basicInv c s \<Longrightarrow> basicInv c (snd (flushDeferred c s))"
  by (auto simp: basicInv_defs flushDeferred_upd)

lemma basicInv_flush: "basicInv c s \<Longrightarrow> basicInv c (snd (flush c s))"
  by (simp add: flush_def Let_def basicInv_flushSync basicInv_flushDeferred
        split: option.splits cond_result.splits bool.splits)

lemma basicInv_step: "basicInv c s \<Longrightarrow> step c e s = Some s' \<Longrightarrow> basicInv c s'"
  by (cases e)
     (auto simp: basicInv_debounced basicInv_cancel basicInv_flush basicInv_fire
        basicInv_keydown basicInv_afterCondition basicInv_settlePending tryRunCatch_def
        opResolved_def opRejected_def split: if_splits)

lemma reachable_basicInv: "reachable c s \<Longrightarrow> basicInv c s"
proof (induction rule: reachable.induct)
  case reachable_init
  show ?case by (simp add: basicInv_defs init_def)
next
  case (reachable_step s e s')
  from reachable_step.IH reachable_step.hyps(2) show ?case by (rule basicInv_step)
qed

lemma tracked_cleared:
  "list_all (\<lambda>t. d = Some (tid t) \<or> m = Some (tid t)) ts \<Longrightarrow>
   filter (\<lambda>t. Some (tid t) \<noteq> d \<and> Some (tid t) \<noteq> m) ts = []"
  by (induction ts) auto

lemma trackedInv_host [simp]:
  "trackedInv (s\<lparr> now := t \<rparr>) = trackedInv s"
  "trackedInv (s\<lparr> opsInFlight := os \<rparr>) = trackedInv s"
  "trackedInv (s\<lparr> condEvals := n \<rparr>) = trackedInv s"
  by (simp_all add: trackedInv_def)

lemma trackedInv_clearTimeout: "trackedInv s \<Longrightarrow> trackedInv (clearTimeout i s)"
  by (auto simp: trackedInv_def clearTimeout_def list_all_iff)

lemma trackedInv_settlePending: "trackedInv s \<Longrightarrow> trackedInv (settlePending r s)"
  by (simp add: trackedInv_def settlePending_upd)

lemma trackedInv_runNow: "trackedInv s \<Longrightarrow> trackedInv (runNow c s)"
  by (auto simp: trackedInv_def runNow_upd dest: tracked_cleared)

lemma trackedInv_tryRun: "condition c = None \<Longrightarrow> trackedInv s \<Longrightarrow> trackedInv (tryRun c s)"
  by (simp add: tryRun_def trackedInv_runNow)

lemma trackedInv_maxWaitExpired: "trackedInv s \<Longrightarrow> trackedInv (maxWaitExpired s)"
  by (auto simp: trackedInv_def maxWaitExpired_upd list_all_iff)

lemma trackedInv_fire:
  "condition c = None \<Longrightarrow> trackedInv s \<Longrightarrow> fire c i s = Some s' \<Longrightarrow> trackedInv s'"
  by (auto simp: fire_def Let_def trackedInv_tryRun trackedInv_maxWaitExpired
        trackedInv_clearTimeout split: list.splits if_splits callback.splits)

lemma trackedInv_cancel: "trackedInv s \<Longrightarrow> trackedInv (cancel s)"
  by (auto simp: trackedInv_def cancel_upd dest: tracked_cleared)

lemma trackedInv_keydown: "trackedInv s \<Longrightarrow> trackedInv (keydown c k s)"
  by (simp add: keydown_def trackedInv_cancel)

lemma trackedInv_schedule: "trackedInv s \<Longrightarrow> trackedInv (schedule c s)"
  by (auto simp: trackedInv_def schedule_upd list_all_iff split: option.splits)

lemma trackedInv_debounced:
  "trackedInv s \<Longrightarrow> trackedInv (snd (debounced c this args s))"
proof -
  assume "trackedInv s"
  then have "trackedInv (s\<lparr> lastArgs := Some args, lastThis := this \<rparr>)"
    by (simp add: trackedInv_def)
  then have "trackedInv (schedule c (s\<lparr> lastArgs := Some args, lastThis := this \<rparr>))"
    by (rule trackedInv_schedule)
  then show ?thesis
    by (simp add: debounced_def ensurePendingPromise_upd trackedInv_def Let_def split: option.splits)
qed

lemma trackedInv_flush:
  "\<not> isDeclaredAsyncFunction c \<Longrightarrow> condition c = None \<Longrightarrow> trackedInv s \<Longrightarrow>
   trackedInv (snd (flush c s))"
  by (auto simp: flush_def flushSync_upd trackedInv_def dest: tracked_cleared)

lemma trackedInv_step:
  "\<not> isDeclaredAsyncFunction c \<Longrightarrow> condition c = None \<Longrightarrow> trackedInv s \<Longrightarrow>
   step c e s = Some s' \<Longrightarrow> trackedInv s'"
  by (cases e)
     (auto simp: trackedInv_debounced trackedInv_cancel trackedInv_flush trackedInv_fire
        trackedInv_keydown trackedInv_settlePending tryRunCatch_def
        opResolved_def opRejected_def split: if_splits,
      auto simp: trackedInv_def)

lemma reachable_trackedInv:
  assumes "reachable c s" and sync: "\<not> isDeclaredAsyncFunction c" and nc: "condition c = None"
  shows "trackedInv s"
  using assms(1)
proof (induction rule: reachable.induct)
  case reachable_init
  show ?case by (simp add: trackedInv_def init_def)
next
  case (reachable_step s e s')
  from sync nc reachable_step.IH reachable_step.hyps(2) show ?case by (rule trackedInv_step)
qed

lemma reachable_run: "reachable c s \<Longrightarrow> run c es s = Some s' \<Longrightarrow> reachable c s'"
proof (induction es arbitrary: s)
  case Nil
  then show ?case by simp
next
  case (Cons e es)
  from Cons.prems(2) obtain s1 where e: "step c e s = Some s1" and r: "run c es s1 = Some s'"
    by (auto split: option.splits)
  from Cons.prems(1) e have "reachable c s1" by (rule reachable_step)
  then show ?case using r by (rule Cons.IH)
qed

section \<open>Bursts\<close>

lemma burst_first:
  assumes "quiescent s"
  shows "inBurst c s (now s) this args (snd (debounced c this args s))"
  using assms
  by (auto simp: quiescent_def inBurst_def debounced_upd schedule_upd Let_def
           split: option.splits)

lemma burst_first_now: "now (snd (debounced c this args s)) = now s"
  by (simp add: debounced_upd schedule_upd Let_def)

lemma burst_next:
  assumes b: "inBurst c s0 t0 this args s"
    and g: "0 \<le> g" "g < delay c"
    and mw: "case maxWaitEnabled c of None \<Rightarrow> True | Some w \<Rightarrow> now s + g < t0 + w"
  shows "\<exists>s'. run c [Advance g, Idle, Call this' args'] s = Some s' \<and>
              inBurst c s0 t0 this' args' s' \<and> now s' = now s + g"
  using assms
  by (auto simp: inBurst_def debounced_upd schedule_upd Let_def split: option.splits)

lemma burst_fire:
  assumes b: "inBurst c s0 t0 this args s"
    and cp: "conditionPasses c s0"
    and d0: "0 \<le> delay c"
    and mw: "case maxWaitEnabled c of None \<Rightarrow> True | Some w \<Rightarrow> now s + delay c \<le> t0 + w"
  shows "\<exists>d s2. delayTimer s = Some d \<and>
           filter (\<lambda>t. cb t = TryRun) (timers s) =
             [\<lparr> tid = d, due = now s + delay c, cb = TryRun \<rparr>] \<and>
           run c [Advance (delay c), Fire d] s = Some s2 \<and>
           invocations s2 = invocations s0 @ [(this, Some args)] \<and> quiescent s2"
  using assms
  by (auto simp: inBurst_def conditionPasses_def quiescent_def fire_def clearTimeout_def
        tryRun_def afterCondition_True runNow_upd Let_def split: option.splits)

lemma run_append:
  "run c (es @ fs) s = (case run c es s of None \<Rightarrow> None | Some s' \<Rightarrow> run c fs s')"
  by (induction es arbitrary: s) (auto split: option.splits)

lemma gaps_sum_nonneg:
  "\<forall>(g, this, args) \<in> set rest. 0 \<le> g \<and> g < (d::int) \<Longrightarrow> 0 \<le> sum_list (map fst rest)"
  by (induction rest) auto

lemma burst_rest:
  assumes "inBurst c s0 t0 this args s"
    and "\<forall>(g, this', args') \<in> set rest. 0 \<le> g \<and> g < delay c"
    and "case maxWaitEnabled c of
           None \<Rightarrow> True | Some w \<Rightarrow> now s + sum_list (map fst rest) + delay c \<le> t0 + w"
  shows "\<exists>s1. run c (burstEvents rest) s = Some s1 \<and>
              inBurst c s0 t0 (fst (last ((this, args) # map snd rest)))
                (snd (last ((this, args) # map snd rest))) s1 \<and>
              now s1 = now s + sum_list (map fst rest)"
  using assms
proof (induction rest arbitrary: s this args)
  case Nil
  then show ?case by simp
next
  case (Cons x rest)
  obtain g this' args' where x: "x = (g, this', args')" by (cases x) auto
  from Cons.prems(2) x have g: "0 \<le> g" "g < delay c"
    and gs: "\<forall>(g, this', args') \<in> set rest. 0 \<le> g \<and> g < delay c"
    by auto
  from gs have nn: "0 \<le> sum_list (map fst rest)" by (rule gaps_sum_nonneg)
  from Cons.prems(3) x nn
  have mw: "case maxWaitEnabled c of None \<Rightarrow> True | Some w \<Rightarrow> now s + g < t0 + w"
    using g by (auto split: option.splits)
  from burst_next [OF Cons.prems(1) g mw, of this' args']
  obtain s' where r: "run c [Advance g, Idle, Call this' args'] s = Some s'"
    and b: "inBurst c s0 t0 this' args' s'" and n: "now s' = now s + g"
    by blast
  from Cons.prems(3) x n
  have mw': "case maxWaitEnabled c of
               None \<Rightarrow> True | Some w \<Rightarrow> now s' + sum_list (map fst rest) + delay c \<le> t0 + w"
    by (auto split: option.splits)
  from Cons.IH [OF b gs mw']
  obtain s1 where r1: "run c (burstEvents rest) s' = Some s1"
    and b1: "inBurst c s0 t0 (fst (last ((this', args') # map snd rest)))
                (snd (last ((this', args') # map snd rest))) s1"
    and n1: "now s1 = now s' + sum_list (map fst rest)"
    by blast
  have "run c (burstEvents (x # rest)) s =
          run c ([Advance g, Idle, Call this' args'] @ burstEvents rest) s"
    by (simp add: x)
  also have "\<dots> = run c (burstEvents rest) s'"
    unfolding run_append r by simp
  finally have "run c (burstEvents (x # rest)) s = Some s1" using r1 by simp
  moreover have "last ((this, args) # map snd (x # rest)) = last ((this', args') # map snd rest)"
    by (simp add: x)
  moreover have "now s1 = now s + sum_list (map fst (x # rest))"
    using n n1 by (simp add: x)
  ultimately show ?case using b1 by auto
qed

lemma quiescent_step:
  assumes "quiescent s" and "\<not> isCall e" and "step c e s = Some s'"
  shows "quiescent s' \<and> invocations s' = invocations s"
  using assms
  by (cases e)
     (auto simp: quiescent_def flush_def keydown_def cancel_def fire_def opResolved_def
        opRejected_def settlePending_upd split: if_splits)

lemma quiescent_run:
  assumes "quiescent s" and "list_all (\<lambda>e. \<not> isCall e) es" and "run c es s = Some s'"
  shows "quiescent s' \<and> invocations s' = invocations s"
  using assms
proof (induction es arbitrary: s)
  case Nil
  then show ?case by simp
next
  case (Cons e es)
  from Cons.prems(3) obtain s1 where e: "step c e s = Some s1" and r: "run c es s1 = Some s'"
    by (auto split: option.splits)
  from Cons.prems(1,2) e have q1: "quiescent s1" and i1: "invocations s1 = invocations s"
    using quiescent_step [of s e c s1] by simp_all
  from Cons.prems(2) have "list_all (\<lambda>e. \<not> isCall e) es" by simp
  from Cons.IH [OF q1 this r] i1 show ?case by simp
qed

text \<open>
  A wrapper at rest receives a burst: a first call and then any number of further calls,
  each less than \<open>delay\<close> after the one before, the whole burst ending early enough for
  its delay timer to come due no later than the max-wait deadline, if there is one, and
  the condition, if one is configured, lets the attempt through. Then the host, firing its
  timers on time, fires none during the burst; after the last call the record holds the
  context and the arguments of that call; when the delay timer fires the operation is
  called once, with them, and nothing but a further call makes the operation run again.
\<close>

lemma burst_at_rest_runs_once:
  assumes q: "quiescent s"
    and cp: "conditionPasses c s"
    and d0: "0 \<le> delay c"
    and gaps: "\<forall>(g, this, args) \<in> set rest. 0 \<le> g \<and> g < delay c"
    and mw: "case maxWaitEnabled c of
               None \<Rightarrow> True | Some w \<Rightarrow> sum_list (map fst rest) + delay c \<le> w"
    and lst: "last ((this0, args0) # map snd rest) = (thisN, argsN)"
  shows "\<exists>s1 d s2.
           run c (Call this0 args0 # burstEvents rest) s = Some s1 \<and>
           hasPending s1 \<and> invocations s1 = invocations s \<and>
           lastArgs s1 = Some argsN \<and> lastThis s1 = thisN \<and>
           delayTimer s1 = Some d \<and>
           filter (\<lambda>t. cb t = TryRun) (timers s1) =
             [\<lparr> tid = d, due = now s1 + delay c, cb = TryRun \<rparr>] \<and>
           run c [Advance (delay c), Fire d] s1 = Some s2 \<and>
           invocations s2 = invocations s @ [(thisN, Some argsN)] \<and>
           quiescent s2 \<and>
           (\<forall>es s3. list_all (\<lambda>e. \<not> isCall e) es \<and> run c es s2 = Some s3 \<longrightarrow>
              invocations s3 = invocations s @ [(thisN, Some argsN)])"
proof -
  let ?s' = "snd (debounced c this0 args0 s)"
  from q have b: "inBurst c s (now s) this0 args0 ?s'" by (rule burst_first)
  have n: "now ?s' = now s" by (rule burst_first_now)
  from mw d0 n
  have mw1: "case maxWaitEnabled c of
               None \<Rightarrow> True
             | Some w \<Rightarrow> now ?s' + sum_list (map fst rest) + delay c \<le> now s + w"
    by (auto split: option.splits)
  from burst_rest [OF b gaps mw1] lst
  obtain s1 where r1: "run c (burstEvents rest) ?s' = Some s1"
    and b1: "inBurst c s (now s) thisN argsN s1"
    and n1: "now s1 = now s + sum_list (map fst rest)"
    using n by auto
  from mw n1
  have mw2: "case maxWaitEnabled c of
               None \<Rightarrow> True | Some w \<Rightarrow> now s1 + delay c \<le> now s + w"
    by (auto split: option.splits)
  from burst_fire [OF b1 cp d0 mw2]
  obtain d s2 where f: "delayTimer s1 = Some d"
    "filter (\<lambda>t. cb t = TryRun) (timers s1) = [\<lparr> tid = d, due = now s1 + delay c, cb = TryRun \<rparr>]"
    "run c [Advance (delay c), Fire d] s1 = Some s2"
    "invocations s2 = invocations s @ [(thisN, Some argsN)]" "quiescent s2"
    by blast
  have "run c (Call this0 args0 # burstEvents rest) s = Some s1"
    using r1 by simp
  moreover from b1 have "hasPending s1" "invocations s1 = invocations s"
    "lastArgs s1 = Some argsN" "lastThis s1 = thisN"
    by (simp_all add: inBurst_def)
  moreover have "\<forall>es s3. list_all (\<lambda>e. \<not> isCall e) es \<and> run c es s2 = Some s3 \<longrightarrow>
              invocations s3 = invocations s @ [(thisN, Some argsN)]"
    using quiescent_run [OF f(5)] f(4) by auto
  ultimately show ?thesis using f by blast
qed

text \<open>The scenario of the specification: delay 100, calls at 0, 30 and 60.\<close>

lemma scenario_three_calls_within_the_delay:
  "run (sample False 100 None None True)
     [Call None [''a''], Advance 30, Idle, Call None [''b''], Advance 30, Idle,
      Call None [''c''], Advance 100, Fire 3] init =
     Some \<lparr> delayTimer = None, maxWaitTimer = None, lastArgs = None, lastThis = None,
            hasPending = False, pendingPromise = None, removeKeyListener = False,
            now = 160, timers = [], nextTimer = 4,
            nextPromise = 0, settled = [], condEvals = 0, condWaiting = [], opsInFlight = [],
            invocations = [(None, Some [''c''])] \<rparr>"
  by (simp add: sample_def init_def debounced_upd schedule_upd maxWaitEnabled_def
        listenerEnabled_def fire_def clearTimeout_def tryRun_def runNow_upd settledBy_def
        Let_def)

section \<open>The synchronous path of flush\<close>

text \<open>
  In a reachable state of a wrapper whose operation is not declared \<^verbatim>\<open>async\<close>, with
  no condition configured or a condition that answers true: \<open>flush\<close> while a call is
  pending resets the two timer variables and unschedules the timers they named, removes
  the key listener, ends Pending State, detaches the Invocation Record, calls the
  operation once with the captured context and arguments, and hands its caller what the
  operation returned or threw. With no condition configured nothing at all remains
  scheduled. \<open>flush\<close> while nothing is pending returns \<^verbatim>\<open>undefined\<close> and changes
  nothing.
\<close>

lemma flush_of_a_pending_synchronous_call:
  assumes "reachable c s" and "\<not> isDeclaredAsyncFunction c" and "conditionPasses c s"
  shows "(hasPending s \<longrightarrow>
            lastArgs s \<noteq> None \<and>
            flush c s =
              (case fn c (lastThis s) (lastArgs s) of
                 Returns v \<Rightarrow> FlushValue v
               | ReturnsPromise \<Rightarrow> FlushRawPromise (length (invocations s))
               | Throws err \<Rightarrow> FlushThrows err,
               s\<lparr> delayTimer := None, maxWaitTimer := None,
                  timers := filter (\<lambda>t. Some (tid t) \<noteq> maxWaitTimer s)
                              (filter (\<lambda>t. Some (tid t) \<noteq> delayTimer s) (timers s)),
                  removeKeyListener := False, hasPending := False,
                  lastArgs := None, lastThis := None,
                  invocations := invocations s @ [(lastThis s, lastArgs s)],
                  condEvals := (case condition c of None \<Rightarrow> condEvals s
                                                  | Some f \<Rightarrow> Suc (condEvals s)) \<rparr>) \<and>
            (condition c = None \<longrightarrow> timers (snd (flush c s)) = [])) \<and>
         (\<not> hasPending s \<longrightarrow> flush c s = (FlushUndefined, s))"
proof (intro conjI impI)
  assume p: "hasPending s"
  from assms(1) have "argsInv s"
    using reachable_basicInv [of c s] by (simp add: basicInv_def)
  with p show args: "lastArgs s \<noteq> None" by (simp add: argsInv_def)
  from p args assms(2,3)
  show "flush c s =
              (case fn c (lastThis s) (lastArgs s) of
                 Returns v \<Rightarrow> FlushValue v
               | ReturnsPromise \<Rightarrow> FlushRawPromise (length (invocations s))
               | Throws err \<Rightarrow> FlushThrows err,
               s\<lparr> delayTimer := None, maxWaitTimer := None,
                  timers := filter (\<lambda>t. Some (tid t) \<noteq> maxWaitTimer s)
                              (filter (\<lambda>t. Some (tid t) \<noteq> delayTimer s) (timers s)),
                  removeKeyListener := False, hasPending := False,
                  lastArgs := None, lastThis := None,
                  invocations := invocations s @ [(lastThis s, lastArgs s)],
                  condEvals := (case condition c of None \<Rightarrow> condEvals s
                                                  | Some f \<Rightarrow> Suc (condEvals s)) \<rparr>)"
    by (cases s) (simp add: flush_def flushSync_upd conditionPasses_def Let_def
                       split: option.splits fn_result.splits)
  assume nc: "condition c = None"
  from assms(1,2) nc have "trackedInv s" by (rule reachable_trackedInv)
  with p args assms(2) nc show "timers (snd (flush c s)) = []"
    by (auto simp: flush_def flushSync_upd trackedInv_def dest: tracked_cleared)
next
  assume "\<not> hasPending s"
  then show "flush c s = (FlushUndefined, s)" by (simp add: flush_def)
qed

section \<open>The claims\<close>

subsection \<open>C1: a burst runs the operation once, with the last arguments\<close>

text \<open>
  C1 fails on the code, in two ways.

  The operation is declared \<^verbatim>\<open>async\<close>, the delay is 100 ms. A call, \<open>flush\<close> and
  \<open>cancel\<close> leave the zero-delay attempt of \<open>flush\<close> scheduled (line 260). The burst
  that follows is a call with \<open>b\<close> and, 30 ms later, a call with \<open>c\<close>. The attempt left
  behind fires right after the first call and runs the operation on \<open>b\<close>, which ends
  Pending State; the second call then opens a burst of its own, and its delay timer runs
  the operation on \<open>c\<close>: two executions for one burst, the first with the arguments of a
  call that was not the last.

  The condition throws. A burst of two calls 30 ms apart: the attempt of the delay timer
  ends in the handler of lines 183-189, which schedules nothing, so the operation is not
  run and nothing is left that would run it.
\<close>

theorem C1_burst_after_flush_and_cancel_runs_twice:
  "run (sample True 100 None None True)
     [Call None [''a''], Flush, Cancel,
      Call None [''b''], Fire 2, Advance 30, Idle, Call None [''c''], Advance 100, Fire 4]
     init =
     Some \<lparr> delayTimer = None, maxWaitTimer = None, lastArgs = None, lastThis = None,
            hasPending = False, pendingPromise = Some 1, removeKeyListener = False,
            now = 130, timers = [], nextTimer = 5, nextPromise = 2,
            settled = [(0, Rejected DebounceCancelledError)],
            condEvals = 0, condWaiting = [], opsInFlight = [0, 1],
            invocations = [(None, Some [''b'']), (None, Some [''c''])] \<rparr> \<and>
   run (sample False 100 None (Some brokenCheck) True)
     [Call None [''b''], Advance 30, Idle, Call None [''c''], Advance 100, Fire 2] init =
     Some \<lparr> delayTimer = Some 2, maxWaitTimer = None, lastArgs = Some [''c''],
            lastThis = None, hasPending = True, pendingPromise = None,
            removeKeyListener = True, now = 130, timers = [], nextTimer = 3,
            nextPromise = 0, settled = [], condEvals = 1, condWaiting = [],
            opsInFlight = [], invocations = [] \<rparr>"
  by (simp add: sample_def brokenCheck_def init_def debounced_upd schedule_upd
        maxWaitEnabled_def listenerEnabled_def flush_def flushDeferred_upd cancel_upd fire_def
        clearTimeout_def tryRun_def tryRunCatch_def runNow_upd settlePending_upd settledBy_def
        Let_def)

subsection \<open>C2: cancel\<close>

text \<open>
  C2 fails on the code, in two ways. The wrapped operation is declared \<^verbatim>\<open>async\<close>.

  A call, then \<open>flush\<close>, then \<open>cancel\<close>: \<open>flush\<close> schedules its zero-delay attempt
  without keeping the handle (line 260), so \<open>cancel\<close> ends Pending State, clears the
  record and rejects the promise with \<open>DebounceCancelledError\<close>, but the attempt stays
  scheduled. When it fires, the operation is called, with no context and no arguments.

  A call whose attempt is suspended on the promise of the condition, then \<open>cancel\<close>: when
  the promise resolves to true the attempt goes on where it stopped, without looking at
  Pending State again (lines 132-139), and calls the operation.
\<close>

theorem C2_operation_runs_after_cancel:
  "run (sample True 100 None None True) [Call None [''a''], Flush, Cancel] init =
     Some \<lparr> delayTimer = None, maxWaitTimer = None, lastArgs = None, lastThis = None,
            hasPending = False, pendingPromise = None, removeKeyListener = False,
            now = 0, timers = [\<lparr> tid = 2, due = 0, cb = TryRun \<rparr>], nextTimer = 3,
            nextPromise = 1, settled = [(0, Rejected DebounceCancelledError)],
            condEvals = 0, condWaiting = [], opsInFlight = [], invocations = [] \<rparr> \<and>
   run (sample True 100 None None True) [Call None [''a''], Flush, Cancel, Fire 2] init =
     Some \<lparr> delayTimer = None, maxWaitTimer = None, lastArgs = None, lastThis = None,
            hasPending = False, pendingPromise = None, removeKeyListener = False,
            now = 0, timers = [], nextTimer = 3,
            nextPromise = 1, settled = [(0, Rejected DebounceCancelledError)],
            condEvals = 0, condWaiting = [], opsInFlight = [0],
            invocations = [(None, None)] \<rparr> \<and>
   run (sample True 100 None (Some slowCheck) True)
     [Call None [''a''], Advance 100, Fire 1, Cancel] init =
     Some \<lparr> delayTimer = None, maxWaitTimer = None, lastArgs = None, lastThis = None,
            hasPending = False, pendingPromise = None, removeKeyListener = False,
            now = 100, timers = [], nextTimer = 2,
            nextPromise = 1, settled = [(0, Rejected DebounceCancelledError)],
            condEvals = 1, condWaiting = [0], opsInFlight = [], invocations = [] \<rparr> \<and>
   run (sample True 100 None (Some slowCheck) True)
     [Call None [''a''], Advance 100, Fire 1, Cancel, CondResolves 0 True] init =
     Some \<lparr> delayTimer = None, maxWaitTimer = None, lastArgs = None, lastThis = None,
            hasPending = False, pendingPromise = None, removeKeyListener = False,
            now = 100, timers = [], nextTimer = 2,
            nextPromise = 1, settled = [(0, Rejected DebounceCancelledError)],
            condEvals = 1, condWaiting = [], opsInFlight = [0],
            invocations = [(None, None)] \<rparr>"
  by (simp add: sample_def slowCheck_def init_def debounced_upd schedule_upd maxWaitEnabled_def
        listenerEnabled_def flush_def flushDeferred_upd cancel_upd fire_def clearTimeout_def
        tryRun_def afterCondition_True runNow_upd settledBy_def Let_def)

subsection \<open>C3: the max-wait deadline\<close>

text \<open>
  C3 fails on the code. Delay 1000, max-wait 500, a call every 100 ms from instant 0. At
  instant 500 the max-wait timer fires and replaces the delay timer by a zero-delay attempt
  (line 202); the call of instant 500 comes before that attempt runs and resets it to a
  full delay (lines 208-212). The deadline is not armed again in this burst, so at instant
  1000 the operation has still not run, and the only timer scheduled is the delay timer
  due at 2000.
\<close>

theorem C3_max_wait_attempt_is_reset_by_the_next_call:
  "run (sample False 1000 (Some (Finite 500)) None True)
     [Call None [''a''], Advance 100, Call None [''b''], Advance 100, Call None [''c''],
      Advance 100, Call None [''d''], Advance 100, Call None [''e''], Advance 100,
      Fire 1, Call None [''f''], Advance 100, Call None [''g''], Advance 100,
      Call None [''h''], Advance 100, Call None [''i''], Advance 100, Call None [''j''],
      Advance 100, Call None [''k'']] init =
     Some \<lparr> delayTimer = Some 13, maxWaitTimer = Some 1, lastArgs = Some [''k''],
            lastThis = None, hasPending = True, pendingPromise = None,
            removeKeyListener = True, now = 1000,
            timers = [\<lparr> tid = 13, due = 2000, cb = TryRun \<rparr>], nextTimer = 14,
            nextPromise = 0, settled = [], condEvals = 0, condWaiting = [],
            opsInFlight = [], invocations = [] \<rparr>"
  by (simp add: sample_def init_def debounced_upd schedule_upd maxWaitEnabled_def
        listenerEnabled_def fire_def clearTimeout_def maxWaitExpired_upd Let_def)

subsection \<open>C4: the shared promise\<close>

text \<open>
  C4 fails on the code. The operation is declared \<^verbatim>\<open>async\<close>. The call with \<open>a\<close> gets
  promise 0; at instant 100 the operation runs on \<open>a\<close> and its promise is in flight. The
  call with \<open>b\<close> opens a new burst and is handed promise 0 again, because the promise
  variables are cleared only when the run in flight settles (lines 162-167). That run
  resolves: promise 0 settles with the result for \<open>a\<close>. The burst of \<open>b\<close> runs at
  instant 200, and the result for \<open>b\<close> settles nothing.
\<close>

theorem C4_later_burst_shares_the_promise_of_a_run_in_flight:
  "run (sample True 100 None None True) [Call None [''a''], Advance 100, Fire 1] init =
     Some \<lparr> delayTimer = None, maxWaitTimer = None, lastArgs = None, lastThis = None,
            hasPending = False, pendingPromise = Some 0, removeKeyListener = False,
            now = 100, timers = [], nextTimer = 2, nextPromise = 1, settled = [],
            condEvals = 0, condWaiting = [], opsInFlight = [0],
            invocations = [(None, Some [''a''])] \<rparr> \<and>
   debounced (sample True 100 None None True) None [''b'']
     \<lparr> delayTimer = None, maxWaitTimer = None, lastArgs = None, lastThis = None,
       hasPending = False, pendingPromise = Some 0, removeKeyListener = False,
       now = 100, timers = [], nextTimer = 2, nextPromise = 1, settled = [],
       condEvals = 0, condWaiting = [], opsInFlight = [0],
       invocations = [(None, Some [''a''])] \<rparr> =
     (Some 0,
      \<lparr> delayTimer = Some 2, maxWaitTimer = None, lastArgs = Some [''b''], lastThis = None,
        hasPending = True, pendingPromise = Some 0, removeKeyListener = True,
        now = 100, timers = [\<lparr> tid = 2, due = 200, cb = TryRun \<rparr>], nextTimer = 3,
        nextPromise = 1, settled = [], condEvals = 0, condWaiting = [], opsInFlight = [0],
        invocations = [(None, Some [''a''])] \<rparr>) \<and>
   run (sample True 100 None None True)
     [OpResolves 0 ''result for a'', Advance 100, Fire 2, OpResolves 1 ''result for b'']
     \<lparr> delayTimer = Some 2, maxWaitTimer = None, lastArgs = Some [''b''], lastThis = None,
       hasPending = True, pendingPromise = Some 0, removeKeyListener = True,
       now = 100, timers = [\<lparr> tid = 2, due = 200, cb = TryRun \<rparr>], nextTimer = 3,
       nextPromise = 1, settled = [], condEvals = 0, condWaiting = [], opsInFlight = [0],
       invocations = [(None, Some [''a''])] \<rparr> =
     Some \<lparr> delayTimer = None, maxWaitTimer = None, lastArgs = None, lastThis = None,
            hasPending = False, pendingPromise = None, removeKeyListener = False,
            now = 200, timers = [], nextTimer = 3, nextPromise = 1,
            settled = [(0, Resolved ''result for a'')],
            condEvals = 0, condWaiting = [], opsInFlight = [],
            invocations = [(None, Some [''a'']), (None, Some [''b''])] \<rparr>"
  by (simp add: sample_def init_def debounced_upd schedule_upd maxWaitEnabled_def
        listenerEnabled_def fire_def clearTimeout_def tryRun_def runNow_upd opResolved_def
        settlePending_upd settledBy_def Let_def)

subsection \<open>C5: the attempt whose condition is false\<close>

text \<open>
  C5, as amended. An execution attempt whose condition evaluates to false, at once or
  when the promise it returned resolves, reschedules itself after \<open>max 10 (delay c)\<close>
  milliseconds: 10 ms is only the floor, and from a delay of 10 ms on the retry interval
  is the configured delay itself. The attempt schedules the retry and stores its handle in
  \<open>delayTimer\<close>; Pending State, the Invocation Record, the max-wait handle and every
  timer already scheduled are as before.
\<close>

theorem C5_false_condition_retries_after_max_10_delay:
  "(condition c = Some f \<and> f (condEvals s) = CondReturns False \<longrightarrow>
      tryRun c s =
        s\<lparr> condEvals := Suc (condEvals s),
           timers := timers s @
             [\<lparr> tid = nextTimer s, due = now s + max 10 (delay c), cb = TryRun \<rparr>],
           nextTimer := Suc (nextTimer s),
           delayTimer := Some (nextTimer s) \<rparr>) \<and>
   (k \<in> set (condWaiting s) \<longrightarrow>
      step c (CondResolves k False) s =
        Some (s\<lparr> condWaiting := removeAll k (condWaiting s),
                 timers := timers s @
                   [\<lparr> tid = nextTimer s, due = now s + max 10 (delay c), cb = TryRun \<rparr>],
                 nextTimer := Suc (nextTimer s),
                 delayTimer := Some (nextTimer s) \<rparr>))"
  by (cases s) (simp add: tryRun_def Let_def retry_upd)

theorem C5_witness:
  "tryRun (sample False 1000 None (Some neverReady) True) init =
     init\<lparr> condEvals := 1, timers := [\<lparr> tid = 1, due = 1000, cb = TryRun \<rparr>],
           nextTimer := 2, delayTimer := Some 1 \<rparr> \<and>
   step (sample False 1000 None (Some slowCheck) True) (CondResolves 0 False)
     (init\<lparr> hasPending := True, lastArgs := Some [''a''], condEvals := 1,
            condWaiting := [0] \<rparr>) =
     Some (init\<lparr> hasPending := True, lastArgs := Some [''a''], condEvals := 1,
                condWaiting := [], timers := [\<lparr> tid = 1, due = 1000, cb = TryRun \<rparr>],
                nextTimer := 2, delayTimer := Some 1 \<rparr>)"
  using C5_false_condition_retries_after_max_10_delay
          [of "sample False 1000 None (Some neverReady) True" neverReady init]
        C5_false_condition_retries_after_max_10_delay
          [of "sample False 1000 None (Some slowCheck) True" _
              "init\<lparr> hasPending := True, lastArgs := Some [''a''], condEvals := 1,
                     condWaiting := [0] \<rparr>" 0]
  by (simp add: sample_def neverReady_def init_def)

text \<open>
  C5 as stated fails: with a delay of 1000 ms and a condition that is false, one call at
  instant 0 and its delay timer firing at instant 1000 leave the retry scheduled for
  instant 2000, a second after the failed attempt and not 10 ms after it.
\<close>

theorem C5_counterexample:
  "map_option now
     (run (sample False 1000 None (Some neverReady) True)
        [Call None [''a''], Advance 1000, Fire 1] init) = Some 1000 \<and>
   map_option timers
     (run (sample False 1000 None (Some neverReady) True)
        [Call None [''a''], Advance 1000, Fire 1] init)
     = Some [\<lparr> tid = 2, due = 2000, cb = TryRun \<rparr>]"
  by (simp add: sample_def neverReady_def init_def debounced_upd schedule_upd maxWaitEnabled_def
        listenerEnabled_def fire_def clearTimeout_def tryRun_def retry_upd Let_def)

subsection \<open>C6: the attempt whose condition throws\<close>

text \<open>
  C6, as amended. An error of the condition during an execution attempt, thrown at once
  or as the rejection of the promise the condition returned, rejects the Outstanding Result
  Promise with that error when there is one. When there is none the error is dropped, and
  a wrapper of an operation that is not declared \<^verbatim>\<open>async\<close> never has one.
\<close>

theorem C6_condition_error_rejects_the_promise_if_any:
  "(condition c = Some f \<and> f (condEvals s) = CondThrows err \<longrightarrow>
      (pendingPromise s = Some p \<longrightarrow>
         settled (tryRun c s) = settled s @ [(p, Rejected (Thrown err))]) \<and>
      (pendingPromise s = None \<longrightarrow> settled (tryRun c s) = settled s)) \<and>
   (k \<in> set (condWaiting s) \<longrightarrow>
      (pendingPromise s = Some p \<longrightarrow>
         map_option settled (step c (CondRejects k err) s) =
           Some (settled s @ [(p, Rejected (Thrown err))])) \<and>
      (pendingPromise s = None \<longrightarrow>
         map_option settled (step c (CondRejects k err) s) = Some (settled s))) \<and>
   (condition c = Some f \<and> f (condEvals s) = CondThrows err \<and>
    reachable c s \<and> \<not> isDeclaredAsyncFunction c \<longrightarrow>
      pendingPromise s = None \<and> settled (tryRun c s) = [])"
proof (intro conjI impI)
  assume a: "condition c = Some f \<and> f (condEvals s) = CondThrows err \<and>
             reachable c s \<and> \<not> isDeclaredAsyncFunction c"
  then have "basicInv c s" by (simp add: reachable_basicInv)
  with a have n: "pendingPromise s = None" and e: "settled s = []"
    by (simp_all add: basicInv_def syncInv_def)
  from n show "pendingPromise s = None" .
  from a n e show "settled (tryRun c s) = []"
    by (simp add: tryRun_def Let_def tryRunCatch_def settlePending_upd settledBy_def)
qed (simp_all add: tryRun_def Let_def tryRunCatch_def settlePending_upd settledBy_def)

theorem C6_witness:
  "settled
     (tryRun (sample True 100 None (Some brokenCheck) True)
        (init\<lparr> hasPending := True, lastArgs := Some [''a''], pendingPromise := Some 0,
               nextPromise := 1 \<rparr>))
     = [(0, Rejected (Thrown ''offline''))] \<and>
   map_option settled
     (step (sample True 100 None (Some slowCheck) True) (CondRejects 0 ''offline'')
        (init\<lparr> hasPending := True, lastArgs := Some [''a''], pendingPromise := Some 0,
               nextPromise := 1, condEvals := 1, condWaiting := [0] \<rparr>))
     = Some [(0, Rejected (Thrown ''offline''))] \<and>
   settled (tryRun (sample False 100 None (Some brokenCheck) True) init) = []"
  using C6_condition_error_rejects_the_promise_if_any
          [of "sample True 100 None (Some brokenCheck) True" brokenCheck
              "init\<lparr> hasPending := True, lastArgs := Some [''a''], pendingPromise := Some 0,
                     nextPromise := 1 \<rparr>" "''offline''" 0]
        C6_condition_error_rejects_the_promise_if_any
          [of "sample True 100 None (Some slowCheck) True" _
              "init\<lparr> hasPending := True, lastArgs := Some [''a''], pendingPromise := Some 0,
                     nextPromise := 1, condEvals := 1, condWaiting := [0] \<rparr>" "''offline''"
              0 0]
        C6_condition_error_rejects_the_promise_if_any
          [of "sample False 100 None (Some brokenCheck) True" brokenCheck init "''offline''"]
        reachable_init [of "sample False 100 None (Some brokenCheck) True"]
  by (simp add: sample_def brokenCheck_def init_def)

text \<open>
  C6 as stated fails. For an operation that is not declared \<^verbatim>\<open>async\<close>, the condition
  throws at the attempt of instant 100 and the state afterwards holds no settlement, no
  promise and no sign of the error. And with a max-wait of 500 ms, for an operation that
  is declared \<^verbatim>\<open>async\<close> and a condition that throws once: the attempt of instant 100
  rejects promise 0, the deadline of instant 500 starts another attempt (the handler of
  lines 183-189 leaves the call pending and the deadline armed), and that attempt runs the
  operation: the attempt is made again after the error.
\<close>

theorem C6_counterexample:
  "run (sample False 100 None (Some brokenCheck) True)
     [Call None [''a''], Advance 100, Fire 1] init =
   Some \<lparr> delayTimer = Some 1, maxWaitTimer = None, lastArgs = Some [''a''], lastThis = None,
          hasPending = True, pendingPromise = None, removeKeyListener = True,
          now = 100, timers = [], nextTimer = 2, nextPromise = 0, settled = [],
          condEvals = 1, condWaiting = [], opsInFlight = [], invocations = [] \<rparr> \<and>
   run (sample True 100 (Some (Finite 500)) (Some throwsOnce) True)
     [Call None [''a''], Advance 100, Fire 2, Advance 400, Fire 1, Fire 3] init =
   Some \<lparr> delayTimer = None, maxWaitTimer = None, lastArgs = None, lastThis = None,
          hasPending = False, pendingPromise = None, removeKeyListener = False,
          now = 500, timers = [], nextTimer = 4, nextPromise = 1,
          settled = [(0, Rejected (Thrown ''offline''))],
          condEvals = 2, condWaiting = [], opsInFlight = [0],
          invocations = [(None, Some [''a''])] \<rparr>"
  by (simp add: sample_def brokenCheck_def throwsOnce_def init_def debounced_upd schedule_upd
        maxWaitEnabled_def listenerEnabled_def fire_def clearTimeout_def tryRun_def
        tryRunCatch_def afterCondition_True runNow_upd maxWaitExpired_upd settlePending_upd
        settledBy_def Let_def)

subsection \<open>C7: flushing a pending synchronous call\<close>

text \<open>
  C7 fails on the code. The operation is a plain function, the condition is false at its
  first evaluation and true afterwards. A call, then \<open>flush\<close>: the condition is false,
  so \<open>flush\<close> clears the two timers and schedules a zero-delay attempt whose handle it
  does not keep (line 260). Then \<open>flush\<close> again: the condition is true, the operation
  is called at once with the captured arguments, its result is returned and Pending State
  ends, but the attempt of the first \<open>flush\<close> is still scheduled: not all timers are
  cleared. When it fires, the operation is called a second time, with no context and no
  arguments.
\<close>

theorem C7_flush_leaves_an_attempt_scheduled:
  "run (sample False 100 None (Some readyLater) True) [Call None [''a''], Flush] init =
     Some \<lparr> delayTimer = None, maxWaitTimer = None, lastArgs = Some [''a''], lastThis = None,
            hasPending = True, pendingPromise = None, removeKeyListener = True,
            now = 0, timers = [\<lparr> tid = 2, due = 0, cb = TryRun \<rparr>], nextTimer = 3,
            nextPromise = 0, settled = [], condEvals = 1, condWaiting = [], opsInFlight = [],
            invocations = [] \<rparr> \<and>
   flush (sample False 100 None (Some readyLater) True)
     \<lparr> delayTimer = None, maxWaitTimer = None, lastArgs = Some [''a''], lastThis = None,
       hasPending = True, pendingPromise = None, removeKeyListener = True,
       now = 0, timers = [\<lparr> tid = 2, due = 0, cb = TryRun \<rparr>], nextTimer = 3,
       nextPromise = 0, settled = [], condEvals = 1, condWaiting = [], opsInFlight = [],
       invocations = [] \<rparr> =
     (FlushValue ''ok'',
      \<lparr> delayTimer = None, maxWaitTimer = None, lastArgs = None, lastThis = None,
        hasPending = False, pendingPromise = None, removeKeyListener = False,
        now = 0, timers = [\<lparr> tid = 2, due = 0, cb = TryRun \<rparr>], nextTimer = 3,
        nextPromise = 0, settled = [], condEvals = 2, condWaiting = [], opsInFlight = [],
        invocations = [(None, Some [''a''])] \<rparr>) \<and>
   run (sample False 100 None (Some readyLater) True)
     [Call None [''a''], Flush, Flush, Fire 2] init =
     Some \<lparr> delayTimer = None, maxWaitTimer = None, lastArgs = None, lastThis = None,
            hasPending = False, pendingPromise = None, removeKeyListener = False,
            now = 0, timers = [], nextTimer = 3,
            nextPromise = 0, settled = [], condEvals = 3, condWaiting = [], opsInFlight = [],
            invocations = [(None, Some [''a'']), (None, None)] \<rparr>"
  by (simp add: sample_def readyLater_def init_def debounced_upd schedule_upd
        maxWaitEnabled_def listenerEnabled_def flush_def flushSync_upd flushDeferred_upd
        fire_def clearTimeout_def tryRun_def afterCondition_True runNow_upd settledBy_def
        Let_def)

subsection \<open>C8: Pending State and what is scheduled\<close>

text \<open>
  C8 fails on the code. After an attempt whose condition throws, Pending State is true
  although no timer is scheduled and no attempt is suspended. After a call and a deferred
  \<open>flush\<close>, Pending State is true although the delay-timer variable is empty. After a
  call, a deferred \<open>flush\<close> and \<open>cancel\<close>, Pending State is false although an
  execution attempt is still scheduled. After \<open>cancel\<close> during the wait for the promise
  of the condition, Pending State is false although the attempt is still in progress.
\<close>

theorem C8_pending_state_and_scheduled_attempts_disagree:
  "map_option hasPending
     (run (sample True 100 None (Some brokenCheck) True)
        [Call None [''a''], Advance 100, Fire 1] init) = Some True \<and>
   map_option timers
     (run (sample True 100 None (Some brokenCheck) True)
        [Call None [''a''], Advance 100, Fire 1] init) = Some [] \<and>
   map_option condWaiting
     (run (sample True 100 None (Some brokenCheck) True)
        [Call None [''a''], Advance 100, Fire 1] init) = Some [] \<and>
   map_option hasPending
     (run (sample True 100 None None True) [Call None [''a''], Flush] init) = Some True \<and>
   map_option delayTimer
     (run (sample True 100 None None True) [Call None [''a''], Flush] init) = Some None \<and>
   map_option condWaiting
     (run (sample True 100 None None True) [Call None [''a''], Flush] init) = Some [] \<and>
   map_option hasPending
     (run (sample True 100 None None True) [Call None [''a''], Flush, Cancel] init)
     = Some False \<and>
   map_option timers
     (run (sample True 100 None None True) [Call None [''a''], Flush, Cancel] init)
     = Some [\<lparr> tid = 2, due = 0, cb = TryRun \<rparr>] \<and>
   map_option hasPending
     (run (sample True 100 None (Some slowCheck) True)
        [Call None [''a''], Advance 100, Fire 1, Cancel] init) = Some False \<and>
   map_option condWaiting
     (run (sample True 100 None (Some slowCheck) True)
        [Call None [''a''], Advance 100, Fire 1, Cancel] init) = Some [0]"
  by (simp add: sample_def brokenCheck_def slowCheck_def init_def debounced_upd schedule_upd
        maxWaitEnabled_def listenerEnabled_def flush_def flushDeferred_upd cancel_upd fire_def
        clearTimeout_def tryRun_def tryRunCatch_def settlePending_upd settledBy_def Let_def)

subsection \<open>C9: cancellation by a key event\<close>

text \<open>
  C9, as amended. On a host that is a browser, with a signal name that is neither
  \<^verbatim>\<open>null\<close> nor empty, the key event of that name does to every reachable state exactly
  what \<open>cancel\<close> does. On any other host, with no name or the empty name, and for any
  other key, the event changes nothing: no listener is ever registered.
\<close>

theorem C9_key_event_cancels_where_a_listener_exists:
  assumes "reachable c s"
  shows "keydown c k s =
           (if isBrowser c \<and> k \<noteq> [] \<and> cancelKey c = Some k then cancel s else s)"
proof -
  from assms have "listenerInv c s"
    using reachable_basicInv [of c s] by (simp add: basicInv_def)
  then show ?thesis
    by (auto simp: listenerInv_def listenerEnabled_def keydown_def cancel_def)
qed

theorem C9_witness:
  "keydown (sample False 100 None None True) ''Escape''
     (snd (debounced (sample False 100 None None True) None [''a''] init))
   = cancel (snd (debounced (sample False 100 None None True) None [''a''] init))"
proof -
  have "step (sample False 100 None None True) (Call None [''a'']) init
          = Some (snd (debounced (sample False 100 None None True) None [''a''] init))"
    by simp
  with reachable_init have
    "reachable (sample False 100 None None True)
       (snd (debounced (sample False 100 None None True) None [''a''] init))"
    by (rule reachable_step)
  from C9_key_event_cancels_where_a_listener_exists [OF this, of "''Escape''"]
  show ?thesis by (simp add: sample_def)
qed

text \<open>
  C9 as stated fails outside a browser: with the signal name Escape configured and a call
  pending, the key event leaves the call pending where \<open>cancel\<close> ends it, and the
  operation runs when the delay timer fires.
\<close>

theorem C9_counterexample:
  "map_option hasPending
     (run (sample False 100 None None False) [Call None [''a''], KeyDown ''Escape''] init)
     = Some True \<and>
   map_option hasPending
     (run (sample False 100 None None False) [Call None [''a''], Cancel] init)
     = Some False \<and>
   map_option invocations
     (run (sample False 100 None None False)
        [Call None [''a''], KeyDown ''Escape'', Advance 100, Fire 1] init)
     = Some [(None, Some [''a''])]"
  by (simp add: sample_def init_def debounced_upd schedule_upd maxWaitEnabled_def
        listenerEnabled_def keydown_def cancel_upd fire_def clearTimeout_def tryRun_def
        runNow_upd settledBy_def Let_def)

subsection \<open>C10: what makes a wrapper asynchronous\<close>

text \<open>
  C10. Whether the wrapper is asynchronous is fixed at construction, by the name of the
  operation's constructor and by nothing else. In every reachable state of the wrapper:
  if the operation is declared \<^verbatim>\<open>async\<close>, every call returns the shared promise, the
  one outstanding or a new one, and \<open>flush\<close> on a pending call takes the deferred path
  and returns that promise. If the operation is not declared \<^verbatim>\<open>async\<close>, whatever it
  returns: every call only records its arguments and schedules, returns \<^verbatim>\<open>undefined\<close>
  and creates no promise, and no shared promise exists or was ever settled; \<open>flush\<close> on
  a pending call whose condition lets it through takes the synchronous path, which clears
  the two timers and the listener, ends Pending State, calls the operation with the
  recorded context and arguments and returns the very promise the operation returned; an
  execution attempt whose condition lets it through does the same clearing, calls the
  operation and only records its promise as in flight; and when that promise resolves, the
  value is dropped: the state changes in nothing but the record of what is in flight.
\<close>

theorem C10_asynchronous_mode_is_decided_by_the_declaration:
  assumes "debounce browser f d opts = Inr c" and "reachable c s"
  shows "isDeclaredAsyncFunction c = (constructorName f = ''AsyncFunction'') \<and>
         fn c = behaviour f \<and>
         (constructorName f = ''AsyncFunction'' \<longrightarrow>
            fst (debounced c this args s) =
              Some (case pendingPromise s of Some p \<Rightarrow> p | None \<Rightarrow> nextPromise s) \<and>
            pendingPromise (snd (debounced c this args s)) = fst (debounced c this args s) \<and>
            (hasPending s \<longrightarrow>
               fst (flush c s) =
                 FlushShared (case pendingPromise s of Some p \<Rightarrow> p | None \<Rightarrow> nextPromise s))) \<and>
         (constructorName f \<noteq> ''AsyncFunction'' \<longrightarrow>
            debounced c this args s =
              (None, schedule c (s\<lparr> lastArgs := Some args, lastThis := this \<rparr>)) \<and>
            pendingPromise (snd (debounced c this args s)) = None \<and>
            pendingPromise s = None \<and> settled s = [] \<and>
            (hasPending s \<and> conditionPasses c s \<and>
             behaviour f (lastThis s) (lastArgs s) = ReturnsPromise \<longrightarrow>
               flush c s =
                 (FlushRawPromise (length (invocations s)),
                  s\<lparr> delayTimer := None, maxWaitTimer := None,
                     timers := filter (\<lambda>t. Some (tid t) \<noteq> maxWaitTimer s)
                                 (filter (\<lambda>t. Some (tid t) \<noteq> delayTimer s) (timers s)),
                     removeKeyListener := False, hasPending := False,
                     lastArgs := None, lastThis := None,
                     invocations := invocations s @ [(lastThis s, lastArgs s)],
                     condEvals := (case condition c of None \<Rightarrow> condEvals s
                                                     | Some g \<Rightarrow> Suc (condEvals s)) \<rparr>)) \<and>
            (conditionPasses c s \<and>
             behaviour f (lastThis s) (lastArgs s) = ReturnsPromise \<longrightarrow>
               tryRun c s =
                 s\<lparr> delayTimer := None, maxWaitTimer := None,
                    timers := filter (\<lambda>t. Some (tid t) \<noteq> maxWaitTimer s)
                                (filter (\<lambda>t. Some (tid t) \<noteq> delayTimer s) (timers s)),
                    removeKeyListener := False, hasPending := False,
                    lastArgs := None, lastThis := None,
                    invocations := invocations s @ [(lastThis s, lastArgs s)],
                    opsInFlight := opsInFlight s @ [length (invocations s)],
                    condEvals := (case condition c of None \<Rightarrow> condEvals s
                                                    | Some g \<Rightarrow> Suc (condEvals s)) \<rparr>) \<and>
            (k \<in> set (opsInFlight s) \<longrightarrow>
               step c (OpResolves k v) s =
                 Some (s\<lparr> opsInFlight := removeAll k (opsInFlight s) \<rparr>)))"
proof -
  from assms(1) have fnc: "fn c = behaviour f"
    and decl: "isDeclaredAsyncFunction c = (constructorName f = ''AsyncFunction'')"
    by (auto simp: debounce_def split: jsnum.splits if_splits)
  from assms(2) have inv: "basicInv c s" by (rule reachable_basicInv)
  then have ai: "argsInv s" by (simp add: basicInv_def)
  have async: "constructorName f = ''AsyncFunction'' \<longrightarrow>
            fst (debounced c this args s) =
              Some (case pendingPromise s of Some p \<Rightarrow> p | None \<Rightarrow> nextPromise s) \<and>
            pendingPromise (snd (debounced c this args s)) = fst (debounced c this args s) \<and>
            (hasPending s \<longrightarrow>
               fst (flush c s) =
                 FlushShared (case pendingPromise s of Some p \<Rightarrow> p | None \<Rightarrow> nextPromise s))"
    using decl ai
    by (auto simp: debounced_upd schedule_upd flush_def flushDeferred_upd argsInv_def Let_def)
  have plain: "constructorName f \<noteq> ''AsyncFunction'' \<longrightarrow>
            debounced c this args s =
              (None, schedule c (s\<lparr> lastArgs := Some args, lastThis := this \<rparr>)) \<and>
            pendingPromise (snd (debounced c this args s)) = None \<and>
            pendingPromise s = None \<and> settled s = [] \<and>
            (hasPending s \<and> conditionPasses c s \<and>
             behaviour f (lastThis s) (lastArgs s) = ReturnsPromise \<longrightarrow>
               flush c s =
                 (FlushRawPromise (length (invocations s)),
                  s\<lparr> delayTimer := None, maxWaitTimer := None,
                     timers := filter (\<lambda>t. Some (tid t) \<noteq> maxWaitTimer s)
                                 (filter (\<lambda>t. Some (tid t) \<noteq> delayTimer s) (timers s)),
                     removeKeyListener := False, hasPending := False,
                     lastArgs := None, lastThis := None,
                     invocations := invocations s @ [(lastThis s, lastArgs s)],
                     condEvals := (case condition c of None \<Rightarrow> condEvals s
                                                     | Some g \<Rightarrow> Suc (condEvals s)) \<rparr>)) \<and>
            (conditionPasses c s \<and>
             behaviour f (lastThis s) (lastArgs s) = ReturnsPromise \<longrightarrow>
               tryRun c s =
                 s\<lparr> delayTimer := None, maxWaitTimer := None,
                    timers := filter (\<lambda>t. Some (tid t) \<noteq> maxWaitTimer s)
                                (filter (\<lambda>t. Some (tid t) \<noteq> delayTimer s) (timers s)),
                    removeKeyListener := False, hasPending := False,
                    lastArgs := None, lastThis := None,
                    invocations := invocations s @ [(lastThis s, lastArgs s)],
                    opsInFlight := opsInFlight s @ [length (invocations s)],
                    condEvals := (case condition c of None \<Rightarrow> condEvals s
                                                    | Some g \<Rightarrow> Suc (condEvals s)) \<rparr>) \<and>
            (k \<in> set (opsInFlight s) \<longrightarrow>
               step c (OpResolves k v) s =
                 Some (s\<lparr> opsInFlight := removeAll k (opsInFlight s) \<rparr>))"
  proof
    assume "constructorName f \<noteq> ''AsyncFunction''"
    with decl have ns: "\<not> isDeclaredAsyncFunction c" by simp
    with inv have pp: "pendingPromise s = None" and st: "settled s = []"
      by (simp_all add: basicInv_def syncInv_def)
    have call: "debounced c this args s =
              (None, schedule c (s\<lparr> lastArgs := Some args, lastThis := this \<rparr>))"
      using ns by (simp add: debounced_def Let_def)
    have call2: "pendingPromise (snd (debounced c this args s)) = None"
      using pp by (simp add: call schedule_upd)
    have fl: "hasPending s \<and> conditionPasses c s \<and>
             behaviour f (lastThis s) (lastArgs s) = ReturnsPromise \<longrightarrow>
               flush c s =
                 (FlushRawPromise (length (invocations s)),
                  s\<lparr> delayTimer := None, maxWaitTimer := None,
                     timers := filter (\<lambda>t. Some (tid t) \<noteq> maxWaitTimer s)
                                 (filter (\<lambda>t. Some (tid t) \<noteq> delayTimer s) (timers s)),
                     removeKeyListener := False, hasPending := False,
                     lastArgs := None, lastThis := None,
                     invocations := invocations s @ [(lastThis s, lastArgs s)],
                     condEvals := (case condition c of None \<Rightarrow> condEvals s
                                                     | Some g \<Rightarrow> Suc (condEvals s)) \<rparr>)"
      using flush_of_a_pending_synchronous_call [OF assms(2) ns] fnc by simp
    have tr: "conditionPasses c s \<and>
             behaviour f (lastThis s) (lastArgs s) = ReturnsPromise \<longrightarrow>
               tryRun c s =
                 s\<lparr> delayTimer := None, maxWaitTimer := None,
                    timers := filter (\<lambda>t. Some (tid t) \<noteq> maxWaitTimer s)
                                (filter (\<lambda>t. Some (tid t) \<noteq> delayTimer s) (timers s)),
                    removeKeyListener := False, hasPending := False,
                    lastArgs := None, lastThis := None,
                    invocations := invocations s @ [(lastThis s, lastArgs s)],
                    opsInFlight := opsInFlight s @ [length (invocations s)],
                    condEvals := (case condition c of None \<Rightarrow> condEvals s
                                                    | Some g \<Rightarrow> Suc (condEvals s)) \<rparr>"
      using pp fnc
      by (cases s)
         (auto simp: tryRun_def afterCondition_True runNow_upd conditionPasses_def Let_def
               split: option.splits)
    have op: "k \<in> set (opsInFlight s) \<longrightarrow>
               step c (OpResolves k v) s =
                 Some (s\<lparr> opsInFlight := removeAll k (opsInFlight s) \<rparr>)"
      using pp by (cases s) (simp add: opResolved_def settlePending_def)
    from call call2 pp st fl tr op
    show "debounced c this args s =
              (None, schedule c (s\<lparr> lastArgs := Some args, lastThis := this \<rparr>)) \<and>
            pendingPromise (snd (debounced c this args s)) = None \<and>
            pendingPromise s = None \<and> settled s = [] \<and>
            (hasPending s \<and> conditionPasses c s \<and>
             behaviour f (lastThis s) (lastArgs s) = ReturnsPromise \<longrightarrow>
               flush c s =
                 (FlushRawPromise (length (invocations s)),
                  s\<lparr> delayTimer := None, maxWaitTimer := None,
                     timers := filter (\<lambda>t. Some (tid t) \<noteq> maxWaitTimer s)
                                 (filter (\<lambda>t. Some (tid t) \<noteq> delayTimer s) (timers s)),
                     removeKeyListener := False, hasPending := False,
                     lastArgs := None, lastThis := None,
                     invocations := invocations s @ [(lastThis s, lastArgs s)],
                     condEvals := (case condition c of None \<Rightarrow> condEvals s
                                                     | Some g \<Rightarrow> Suc (condEvals s)) \<rparr>)) \<and>
            (conditionPasses c s \<and>
             behaviour f (lastThis s) (lastArgs s) = ReturnsPromise \<longrightarrow>
               tryRun c s =
                 s\<lparr> delayTimer := None, maxWaitTimer := None,
                    timers := filter (\<lambda>t. Some (tid t) \<noteq> maxWaitTimer s)
                                (filter (\<lambda>t. Some (tid t) \<noteq> delayTimer s) (timers s)),
                    removeKeyListener := False, hasPending := False,
                    lastArgs := None, lastThis := None,
                    invocations := invocations s @ [(lastThis s, lastArgs s)],
                    opsInFlight := opsInFlight s @ [length (invocations s)],
                    condEvals := (case condition c of None \<Rightarrow> condEvals s
                                                    | Some g \<Rightarrow> Suc (condEvals s)) \<rparr>) \<and>
            (k \<in> set (opsInFlight s) \<longrightarrow>
               step c (OpResolves k v) s =
                 Some (s\<lparr> opsInFlight := removeAll k (opsInFlight s) \<rparr>))"
      by blast
  qed
  from decl fnc async plain show ?thesis by blast
qed

theorem C10_witness:
  "debounce True promiseReturning (Finite 100) noOptions = Inr plainWrapper \<and>
   debounce True declaredAsync (Finite 100) noOptions = Inr asyncWrapper \<and>
   fst (debounced asyncWrapper None [''a''] init) = Some 0 \<and>
   fst (flush asyncWrapper
     \<lparr> delayTimer = Some 1, maxWaitTimer = None, lastArgs = Some [''a''], lastThis = None,
       hasPending = True, pendingPromise = Some 0, removeKeyListener = False,
       now = 0, timers = [\<lparr> tid = 1, due = 100, cb = TryRun \<rparr>], nextTimer = 2,
       nextPromise = 1, settled = [], condEvals = 0, condWaiting = [], opsInFlight = [],
       invocations = [] \<rparr>) = FlushShared 0 \<and>
   debounced plainWrapper None [''b'']
     \<lparr> delayTimer = Some 1, maxWaitTimer = None, lastArgs = Some [''a''], lastThis = None,
       hasPending = True, pendingPromise = None, removeKeyListener = False,
       now = 0, timers = [\<lparr> tid = 1, due = 100, cb = TryRun \<rparr>], nextTimer = 2,
       nextPromise = 0, settled = [], condEvals = 0, condWaiting = [], opsInFlight = [],
       invocations = [] \<rparr> =
     (None,
      \<lparr> delayTimer = Some 2, maxWaitTimer = None, lastArgs = Some [''b''], lastThis = None,
        hasPending = True, pendingPromise = None, removeKeyListener = False,
        now = 0, timers = [\<lparr> tid = 2, due = 100, cb = TryRun \<rparr>], nextTimer = 3,
        nextPromise = 0, settled = [], condEvals = 0, condWaiting = [], opsInFlight = [],
        invocations = [] \<rparr>) \<and>
   flush plainWrapper
     \<lparr> delayTimer = Some 1, maxWaitTimer = None, lastArgs = Some [''a''], lastThis = None,
       hasPending = True, pendingPromise = None, removeKeyListener = False,
       now = 0, timers = [\<lparr> tid = 1, due = 100, cb = TryRun \<rparr>], nextTimer = 2,
       nextPromise = 0, settled = [], condEvals = 0, condWaiting = [], opsInFlight = [],
       invocations = [] \<rparr> =
     (FlushRawPromise 0,
      \<lparr> delayTimer = None, maxWaitTimer = None, lastArgs = None, lastThis = None,
        hasPending = False, pendingPromise = None, removeKeyListener = False,
        now = 0, timers = [], nextTimer = 2,
        nextPromise = 0, settled = [], condEvals = 0, condWaiting = [], opsInFlight = [],
        invocations = [(None, Some [''a''])] \<rparr>) \<and>
   tryRun plainWrapper
     \<lparr> delayTimer = Some 1, maxWaitTimer = None, lastArgs = Some [''a''], lastThis = None,
       hasPending = True, pendingPromise = None, removeKeyListener = False,
       now = 0, timers = [\<lparr> tid = 1, due = 100, cb = TryRun \<rparr>], nextTimer = 2,
       nextPromise = 0, settled = [], condEvals = 0, condWaiting = [], opsInFlight = [],
       invocations = [] \<rparr> =
     \<lparr> delayTimer = None, maxWaitTimer = None, lastArgs = None, lastThis = None,
       hasPending = False, pendingPromise = None, removeKeyListener = False,
       now = 0, timers = [], nextTimer = 2,
       nextPromise = 0, settled = [], condEvals = 0, condWaiting = [], opsInFlight = [0],
       invocations = [(None, Some [''a''])] \<rparr> \<and>
   step plainWrapper (OpResolves 0 ''late'')
     \<lparr> delayTimer = None, maxWaitTimer = None, lastArgs = None, lastThis = None,
       hasPending = False, pendingPromise = None, removeKeyListener = False,
       now = 100, timers = [], nextTimer = 2,
       nextPromise = 0, settled = [], condEvals = 0, condWaiting = [], opsInFlight = [0],
       invocations = [(None, Some [''a''])] \<rparr>
   = Some
     \<lparr> delayTimer = None, maxWaitTimer = None, lastArgs = None, lastThis = None,
       hasPending = False, pendingPromise = None, removeKeyListener = False,
       now = 100, timers = [], nextTimer = 2,
       nextPromise = 0, settled = [], condEvals = 0, condWaiting = [], opsInFlight = [],
       invocations = [(None, Some [''a''])] \<rparr>"
proof -
  let ?s = "\<lparr> delayTimer = Some 1, maxWaitTimer = None, lastArgs = Some [''a''], lastThis = None,
       hasPending = True, pendingPromise = None, removeKeyListener = False,
       now = 0, timers = [\<lparr> tid = 1, due = 100, cb = TryRun \<rparr>], nextTimer = 2,
       nextPromise = 0, settled = [], condEvals = 0, condWaiting = [], opsInFlight = [],
       invocations = [] \<rparr> :: string state"
  let ?t = "\<lparr> delayTimer = None, maxWaitTimer = None, lastArgs = None, lastThis = None,
       hasPending = False, pendingPromise = None, removeKeyListener = False,
       now = 100, timers = [], nextTimer = 2,
       nextPromise = 0, settled = [], condEvals = 0, condWaiting = [], opsInFlight = [0],
       invocations = [(None, Some [''a''])] \<rparr> :: string state"
  let ?u = "\<lparr> delayTimer = Some 1, maxWaitTimer = None, lastArgs = Some [''a''], lastThis = None,
       hasPending = True, pendingPromise = Some 0, removeKeyListener = False,
       now = 0, timers = [\<lparr> tid = 1, due = 100, cb = TryRun \<rparr>], nextTimer = 2,
       nextPromise = 1, settled = [], condEvals = 0, condWaiting = [], opsInFlight = [],
       invocations = [] \<rparr> :: string state"
  have d: "debounce True promiseReturning (Finite 100) noOptions = Inr plainWrapper"
    by (simp add: debounce_def promiseReturning_def noOptions_def plainWrapper_def)
  have da: "debounce True declaredAsync (Finite 100) noOptions = Inr asyncWrapper"
    by (simp add: debounce_def declaredAsync_def noOptions_def asyncWrapper_def)
  have "run plainWrapper [Call None [''a'']] init = Some ?s"
    by (simp add: plainWrapper_def init_def debounced_upd schedule_upd maxWaitEnabled_def
          listenerEnabled_def Let_def)
  with reachable_init have rs: "reachable plainWrapper ?s" by (rule reachable_run)
  have "run plainWrapper [Advance 100, Fire 1] ?s = Some ?t"
    by (simp add: plainWrapper_def fire_def clearTimeout_def tryRun_def runNow_upd Let_def)
  with rs have rt: "reachable plainWrapper ?t" by (rule reachable_run)
  have "run asyncWrapper [Call None [''a'']] init = Some ?u"
    by (simp add: asyncWrapper_def init_def debounced_upd schedule_upd maxWaitEnabled_def
          listenerEnabled_def Let_def)
  with reachable_init have ru: "reachable asyncWrapper ?u" by (rule reachable_run)
  have sch: "schedule plainWrapper (?s\<lparr> lastArgs := Some [''b''], lastThis := None \<rparr>) =
      \<lparr> delayTimer = Some 2, maxWaitTimer = None, lastArgs = Some [''b''], lastThis = None,
        hasPending = True, pendingPromise = None, removeKeyListener = False,
        now = 0, timers = [\<lparr> tid = 2, due = 100, cb = TryRun \<rparr>], nextTimer = 3,
        nextPromise = 0, settled = [], condEvals = 0, condWaiting = [], opsInFlight = [],
        invocations = [] \<rparr>"
    by (simp add: plainWrapper_def schedule_upd maxWaitEnabled_def listenerEnabled_def)
  from C10_asynchronous_mode_is_decided_by_the_declaration [OF d rs, of None "[''b'']"]
       C10_asynchronous_mode_is_decided_by_the_declaration [OF d rt, of _ _ 0 "''late''"]
       C10_asynchronous_mode_is_decided_by_the_declaration
         [OF da reachable_init, of None "[''a'']"]
       C10_asynchronous_mode_is_decided_by_the_declaration [OF da ru]
       d da sch
  show ?thesis
    by (simp add: conditionPasses_def plainWrapper_def promiseReturning_def declaredAsync_def
          init_def)
qed

end
